theory Spec2Isabelle
  imports Complex_Main
begin

section \<open>ASKql: the query-processing workflow\<close>

text \<open>
  A shallow embedding of \<^verbatim>\<open>askql-backend/src/workflow/askql-workflow.ts\<close> (the
  \<^verbatim>\<open>AskQLWorkflow\<close> class: seven graph nodes, three conditional edges, the entry point
  \<^verbatim>\<open>processQuery\<close>) and of \<^verbatim>\<open>SQLExecutionAgent.executeSQL\<close> from
  \<^verbatim>\<open>askql-backend/src/agents/sql-execution.agent.ts\<close>.

  Conventions.
  \<^item> An optional field \<^verbatim>\<open>f?: T\<close> is a \<open>T option\<close>; \<open>None\<close> is \<^verbatim>\<open>undefined\<close>.
  \<^item> A JavaScript \<^verbatim>\<open>number\<close> that carries a confidence is a \<open>real\<close> (the schemas of the
    agents restrict it to finite values between 0 and 100); counters and times are \<open>int\<close>
    or \<open>nat\<close>.
  \<^item> A thrown \<^verbatim>\<open>Error\<close> is the value \<open>Inl message\<close>; a call that returns is \<open>Inr value\<close>.
  \<^item> Strings are lists of 8-bit characters, the code points up to U+00FF. On these,
    \<^verbatim>\<open>trim\<close> and the class \<^verbatim>\<open>\\s\<close> take away the six ASCII white-space characters and the
    no-break space U+00A0. \<^verbatim>\<open>toUpperCase\<close> moves the letters a..z and leaves the
    characters above U+007F alone; the agent uses it only to look for the words
    \<^verbatim>\<open>SELECT\<close> and \<^verbatim>\<open>LIMIT\<close>, and the upper-case form of a character above U+007F is
    again above U+007F, but for the sharp s, which becomes \<^verbatim>\<open>SS\<close>, and neither word has
    two S in a row.
\<close>

subsection \<open>JavaScript truthiness and string helpers\<close>

definition truthy_str :: "string option \<Rightarrow> bool" where
  \<comment> \<open>\<^verbatim>\<open>if (s)\<close> for an optional string: \<^verbatim>\<open>undefined\<close> and \<^verbatim>\<open>''\<close> are falsy\<close>
  "truthy_str s = (case s of None \<Rightarrow> False | Some v \<Rightarrow> v \<noteq> [])"

definition str_or_empty :: "string option \<Rightarrow> string" where
  \<comment> \<open>\<^verbatim>\<open>s || ''\<close>\<close>
  "str_or_empty s = (case s of None \<Rightarrow> [] | Some v \<Rightarrow> v)"

definition num_or_zero :: "real option \<Rightarrow> real" where
  \<comment> \<open>\<^verbatim>\<open>n || 0\<close>\<close>
  "num_or_zero n = (case n of None \<Rightarrow> 0 | Some v \<Rightarrow> v)"

definition template_str :: "string option \<Rightarrow> string" where
  \<comment> \<open>an optional string inside a template literal: \<^verbatim>\<open>`${s}`\<close>\<close>
  "template_str s = (case s of None \<Rightarrow> ''undefined'' | Some v \<Rightarrow> v)"

definition is_space :: "char \<Rightarrow> bool" where
  \<comment> \<open>white space and line terminators: tab, line feed, vertical tab, form feed, carriage
     return, space, no-break space\<close>
  "is_space c =
     (c \<in> {CHR '' '', CHR 0x09, CHR 0x0A, CHR 0x0B, CHR 0x0C, CHR 0x0D, CHR 0xA0})"

definition trim :: "string \<Rightarrow> string" where
  "trim s = rev (dropWhile is_space (rev (dropWhile is_space s)))"

definition upper_char :: "char \<Rightarrow> char" where
  \<comment> \<open>the letters a..z move to A..Z, every other character stays\<close>
  "upper_char c =
     (case map_of (zip ''abcdefghijklmnopqrstuvwxyz'' ''ABCDEFGHIJKLMNOPQRSTUVWXYZ'') c of
        None \<Rightarrow> c
      | Some d \<Rightarrow> d)"

definition toUpperCase :: "string \<Rightarrow> string" where
  "toUpperCase s = map upper_char s"

definition startsWith :: "string \<Rightarrow> string \<Rightarrow> bool" where
  "startsWith s p = (take (length p) s = p)"

fun str_includes :: "string \<Rightarrow> string \<Rightarrow> bool" where
  \<comment> \<open>\<^verbatim>\<open>s.includes(p)\<close>\<close>
  "str_includes [] p = (p = [])"
| "str_includes (c # cs) p = (startsWith (c # cs) p \<or> str_includes cs p)"

definition strip_semicolons :: "string \<Rightarrow> string" where
  \<comment> \<open>\<^verbatim>\<open>s.replace(/;+$/, '')\<close>\<close>
  "strip_semicolons s = rev (dropWhile (\<lambda>c. c = CHR '';'') (rev s))"

subsection \<open>Data model\<close>

datatype risk = LOW | MEDIUM | HIGH

record SQLValidationOutput =
  isValid :: bool
  issues :: "string list"
  suggestions :: "string list"
  improvedQuery :: "string option"
  riskLevel :: risk
  shouldExecute :: bool

record alternative =
  query :: string
  explanation :: string
  confidence :: real

datatype NLToSQLOutput = NLToSQLOutput (out_sqlQuery: string) (out_explanation: string) (out_confidence: real)

text \<open>A result row is an object: column names with values, of which only the
  JavaScript type matters to the executor's column metadata.\<close>

datatype js_value =
  JNull | JNumber real | JBoolean bool | JDate | JString string | JArray | JObject | JOther

type_synonym row = "(string \<times> js_value) list"

record SQLExecutionOutput =
  success :: bool
  data :: "row list option"
  exec_error :: "string option"
  executionTime :: int
  rowCount :: nat
  columnInfo :: "(string \<times> string) list"

text \<open>The interpreter's structured answer: the summary and the table; the three optional
  charts are payload the workflow never looks at and are left out.\<close>

record AskQLStructuredOutput =
  summary :: string
  table_should_show :: bool
  table_columns :: "string list"
  table_data :: "row list"

type_synonym schema = "(string \<times> string) list"

record AskQLState =
  originalQuestion :: string
  sessionId :: "string option"
  schema :: "schema option"
  sqlQuery :: "string option"
  queryExplanation :: "string option"
  sqlConfidence :: "real option"
  validationResult :: "SQLValidationOutput option"
  alternativeQueries :: "alternative list option"
  executionResult :: "SQLExecutionOutput option"
  finalResponse :: "AskQLStructuredOutput option"
  error :: "string option"
  retryCount :: "int option"
  messages :: "string list"

text \<open>A \<^verbatim>\<open>Partial<AskQLState>\<close> returned by a node is the list of its keys with their
  values, in the order of the object literal; \<^verbatim>\<open>{}\<close> is \<open>[]\<close>. The graph's channels keep the
  last value written, so merging an update overwrites exactly the keys it has.\<close>

datatype field_update =
    SetSchema schema
  | SetSqlQuery string
  | SetQueryExplanation string
  | SetSqlConfidence real
  | SetValidationResult SQLValidationOutput
  | SetAlternativeQueries "alternative list"
  | SetExecutionResult SQLExecutionOutput
  | SetFinalResponse AskQLStructuredOutput
  | SetError "string option"
  | SetRetryCount int

type_synonym partial_state = "field_update list"

fun apply_field :: "field_update \<Rightarrow> AskQLState \<Rightarrow> AskQLState" where
  "apply_field (SetSchema v) st = st\<lparr>schema := Some v\<rparr>"
| "apply_field (SetSqlQuery v) st = st\<lparr>sqlQuery := Some v\<rparr>"
| "apply_field (SetQueryExplanation v) st = st\<lparr>queryExplanation := Some v\<rparr>"
| "apply_field (SetSqlConfidence v) st = st\<lparr>sqlConfidence := Some v\<rparr>"
| "apply_field (SetValidationResult v) st = st\<lparr>validationResult := Some v\<rparr>"
| "apply_field (SetAlternativeQueries v) st = st\<lparr>alternativeQueries := Some v\<rparr>"
| "apply_field (SetExecutionResult v) st = st\<lparr>executionResult := Some v\<rparr>"
| "apply_field (SetFinalResponse v) st = st\<lparr>finalResponse := Some v\<rparr>"
| "apply_field (SetError v) st = st\<lparr>error := v\<rparr>"
| "apply_field (SetRetryCount v) st = st\<lparr>retryCount := Some v\<rparr>"

definition merge :: "AskQLState \<Rightarrow> partial_state \<Rightarrow> AskQLState" where
  "merge st u = fold apply_field u st"

subsection \<open>The SQL execution agent\<close>

text \<open>
  \<^verbatim>\<open>SQLExecutionAgent.executeSQL\<close>. Its own collaborators are parameters: \<open>db\<close> is
  \<^verbatim>\<open>databaseService.executeReadOnlyQuery\<close> raced against the 30000 ms timer (a timeout is
  one of the messages \<open>db\<close> can reject with), and \<open>now\<close> gives the successive readings of
  \<^verbatim>\<open>Date.now()\<close>. The result comes with the list of queries that were sent to the
  database, so that a refusal can be told from a failed execution.
\<close>

definition is_word :: "char \<Rightarrow> bool" where
  \<comment> \<open>the class \<^verbatim>\<open>\\w\<close>, which decides where \<^verbatim>\<open>\\b\<close> matches\<close>
  "is_word c =
     (c \<in> set (''abcdefghijklmnopqrstuvwxyz'' @ ''ABCDEFGHIJKLMNOPQRSTUVWXYZ'' @ ''0123456789_''))"

definition is_digit :: "char \<Rightarrow> bool" where
  "is_digit c = (c \<in> set ''0123456789'')"

definition spaces_then :: "char \<Rightarrow> string \<Rightarrow> string option" where
  \<comment> \<open>\<^verbatim>\<open>\\s*\<close> followed by the character \<open>c\<close>, at the start of \<open>s\<close>: what follows it\<close>
  "spaces_then c s = (case dropWhile is_space s of [] \<Rightarrow> None | d # r \<Rightarrow> if d = c then Some r else None)"

definition keyword_at :: "string \<Rightarrow> string \<Rightarrow> bool" where
  \<comment> \<open>the upper-case keyword \<open>kw\<close> at the start of \<open>s\<close>, letter case ignored\<close>
  "keyword_at kw s = startsWith (toUpperCase s) kw"

definition aggregate_call_at :: "string \<Rightarrow> bool" where
  \<comment> \<open>\<^verbatim>\<open>(COUNT|SUM|AVG|MAX|MIN|GROUP\\s+BY)\\s*\\(\<close> at the start of \<open>s\<close>\<close>
  "aggregate_call_at s =
     ((\<exists>kw \<in> set [''COUNT'', ''SUM'', ''AVG'', ''MAX'', ''MIN''].
          keyword_at kw s \<and> spaces_then CHR ''('' (drop (length kw) s) \<noteq> None)
      \<or> (keyword_at ''GROUP'' s \<and>
          (case drop 5 s of
             [] \<Rightarrow> False
           | d # r \<Rightarrow> is_space d \<and>
               (let r' = dropWhile is_space r
                in keyword_at ''BY'' r' \<and> spaces_then CHR ''('' (drop 2 r') \<noteq> None))))"

definition count_star_at :: "string \<Rightarrow> bool" where
  \<comment> \<open>\<^verbatim>\<open>COUNT\\s*\\(\\s*\\*\\s*\\)\<close> at the start of \<open>s\<close>\<close>
  "count_star_at s =
     (keyword_at ''COUNT'' s \<and>
      (case spaces_then CHR ''('' (drop 5 s) of
         None \<Rightarrow> False
       | Some r \<Rightarrow>
          (case spaces_then CHR ''*'' r of
             None \<Rightarrow> False
           | Some r' \<Rightarrow> spaces_then CHR '')'' r' \<noteq> None)))"

fun test_at_boundary :: "(string \<Rightarrow> bool) \<Rightarrow> bool \<Rightarrow> string \<Rightarrow> bool" where
  \<comment> \<open>\<^verbatim>\<open>/\\b.../.test(s)\<close> for a pattern that starts with a letter: some position of \<open>s\<close> that
     does not follow a word character matches; \<open>prev\<close> tells whether the character before
     \<open>s\<close> is a word character\<close>
  "test_at_boundary m prev [] = False"
| "test_at_boundary m prev (c # cs) =
     ((\<not> prev \<and> m (c # cs)) \<or> test_at_boundary m (is_word c) cs)"

definition isAggregateQuery :: "string \<Rightarrow> bool" where
  "isAggregateQuery q =
     (test_at_boundary aggregate_call_at False q \<or> test_at_boundary count_star_at False q)"

definition date_like :: "string \<Rightarrow> bool" where
  \<comment> \<open>\<^verbatim>\<open>/^\\d{4}-\\d{2}-\\d{2}/\<close> or \<^verbatim>\<open>/^\\d{2}\\/\\d{2}\\/\\d{4}/\<close>\<close>
  "date_like s =
     (10 \<le> length s \<and>
      ((list_all is_digit (take 4 s) \<and> s ! 4 = CHR ''-'' \<and> list_all is_digit (take 2 (drop 5 s))
          \<and> s ! 7 = CHR ''-'' \<and> list_all is_digit (take 2 (drop 8 s)))
       \<or> (list_all is_digit (take 2 s) \<and> s ! 2 = CHR ''/'' \<and> list_all is_digit (take 2 (drop 3 s))
          \<and> s ! 5 = CHR ''/'' \<and> list_all is_digit (take 4 (drop 6 s)))))"

fun getJavaScriptType :: "js_value \<Rightarrow> string" where
  "getJavaScriptType JNull = ''null''"
| "getJavaScriptType (JNumber x) = (if x = of_int \<lfloor>x\<rfloor> then ''integer'' else ''number'')"
| "getJavaScriptType (JBoolean b) = ''boolean''"
| "getJavaScriptType JDate = ''date''"
| "getJavaScriptType (JString s) = (if date_like s then ''datetime'' else ''string'')"
| "getJavaScriptType JArray = ''array''"
| "getJavaScriptType JObject = ''object''"
| "getJavaScriptType JOther = ''unknown''"

definition extractColumnInfo :: "row list \<Rightarrow> (string \<times> string) list" where
  "extractColumnInfo rows =
     (case rows of
        [] \<Rightarrow> []
      | firstRow # _ \<Rightarrow> map (\<lambda>(key, v). (key, getJavaScriptType v)) firstRow)"

definition MAX_ROWS :: string where
  "MAX_ROWS = ''1000''"

definition failure :: "string \<Rightarrow> int \<Rightarrow> SQLExecutionOutput" where
  \<comment> \<open>the object every failing branch of the agent returns\<close>
  "failure msg t =
     \<lparr>success = False, data = None, exec_error = Some msg, executionTime = t, rowCount = 0,
      columnInfo = []\<rparr>"

definition SQLExecutionAgent_executeSQL ::
  "(string \<Rightarrow> string + row list) \<Rightarrow> (nat \<Rightarrow> int) \<Rightarrow> string \<Rightarrow> bool \<Rightarrow> risk
     \<Rightarrow> SQLExecutionOutput \<times> string list" where
  "SQLExecutionAgent_executeSQL db now sql isValidated risk_level =
     (let startTime = now 0 in
      if \<not> isValidated then
        (failure ''Query must be validated before execution'' (now 1 - startTime), [])
      else if risk_level = HIGH then
        (failure ''High-risk queries are not allowed to execute'' (now 1 - startTime), [])
      else if \<not> startsWith (toUpperCase (trim sql)) ''SELECT'' then
        (failure ''Only SELECT queries are allowed'' (now 1 - startTime), [])
      else
        (let trimmed = strip_semicolons (trim sql);
             queryToExecute =
               (if \<not> str_includes (toUpperCase trimmed) ''LIMIT'' \<and> \<not> isAggregateQuery trimmed
                then trimmed @ '' LIMIT '' @ MAX_ROWS else trimmed)
         in case db queryToExecute of
              Inr dataArray \<Rightarrow>
                (\<lparr>success = True, data = Some dataArray, exec_error = None,
                  executionTime = now 1 - startTime, rowCount = length dataArray,
                  columnInfo = extractColumnInfo dataArray\<rparr>, [queryToExecute])
            | Inl msg \<Rightarrow> (failure msg (now 1 - startTime), [queryToExecute])))"

subsection \<open>Progress events, the world outside the state, and effects\<close>

text \<open>One constructor for each \<^verbatim>\<open>emit...\<close> method of \<^verbatim>\<open>WorkflowStreamingService\<close>, with the
  arguments of the call (the session id is passed beside the event).\<close>

datatype event =
    SchemaLoading
  | SchemaLoaded nat
  | NLToSQLStarting string
  | NLToSQLProcessing
  | NLToSQLCompleted string real string
  | SQLValidationStarting
  | SQLValidationCompleted bool risk "string list"
  | ExperimentationStarting
  | ExperimentationCompleted nat
  | SQLExecutionStarting string
  | SQLExecutionCompleted bool nat int "string option"
  | ResultInterpretationStarting nat
  | ResultInterpretationCompleted string
  | StepError string string
  | WorkflowCompleted AskQLState
  | WorkflowError string

datatype node =
    load_schema | nl_to_sql | validate_sql | experiment_alternatives | execute_sql
  | interpret_results | handle_error | END

text \<open>
  What a run leaves behind besides its result: the calls made to the streaming service, in
  order, and the nodes the graph has entered, each with the state it was entered with.
  The second list is an observer's record; no function of the workflow reads it.
\<close>

record world =
  notified :: "(string \<times> event) list"
  visited :: "(node \<times> AskQLState) list"

text \<open>An effectful computation either returns a value or throws a message, and changes
  the world.\<close>

type_synonym 'a io = "world \<Rightarrow> (string + 'a) \<times> world"

definition io_return :: "'a \<Rightarrow> 'a io" where
  "io_return x w = (Inr x, w)"

definition io_bind :: "'a io \<Rightarrow> ('a \<Rightarrow> 'b io) \<Rightarrow> 'b io" where
  "io_bind m f w = (case m w of (Inl e, w') \<Rightarrow> (Inl e, w') | (Inr x, w') \<Rightarrow> f x w')"

definition io_seq :: "unit io \<Rightarrow> 'b io \<Rightarrow> 'b io" where
  "io_seq m k = io_bind m (\<lambda>_. k)"

definition io_try :: "'a io \<Rightarrow> (string \<Rightarrow> 'a io) \<Rightarrow> 'a io" where
  \<comment> \<open>\<^verbatim>\<open>try { m } catch (error) { h(error.message) }\<close>\<close>
  "io_try m h w = (case m w of (Inl e, w') \<Rightarrow> h e w' | (Inr x, w') \<Rightarrow> (Inr x, w'))"

definition await :: "string + 'a \<Rightarrow> 'a io" where
  \<comment> \<open>awaiting a collaborator's promise: it rejects or resolves\<close>
  "await r w = (r, w)"

text \<open>
  The streaming service is a parameter: told the calls made so far, the session id and the
  event, it says whether this call throws (\<open>Some message\<close>) or returns (\<open>None\<close>).
\<close>

type_synonym sink = "(string \<times> event) list \<Rightarrow> string \<Rightarrow> event \<Rightarrow> string option"

definition emit :: "sink \<Rightarrow> string \<Rightarrow> event \<Rightarrow> unit io" where
  "emit s sid ev w =
     ((case s (notified w) sid ev of Some msg \<Rightarrow> Inl msg | None \<Rightarrow> Inr ()),
      w\<lparr>notified := notified w @ [(sid, ev)]\<rparr>)"

definition if_session :: "sink \<Rightarrow> string option \<Rightarrow> event \<Rightarrow> unit io" where
  \<comment> \<open>\<^verbatim>\<open>if (sessionId) { this.streamingService.emit...(sessionId, ...) }\<close>\<close>
  "if_session s sid ev =
     (case sid of
        None \<Rightarrow> io_return ()
      | Some i \<Rightarrow> if i \<noteq> [] then emit s i ev else io_return ())"

record collaborators =
  streamingService :: sink
  databaseService_getSchemaInfo :: "string + schema"
  nlToSqlAgent :: "string \<Rightarrow> schema \<Rightarrow> string + NLToSQLOutput"
  sqlValidationAgent_validateSQL ::
    "string \<Rightarrow> string \<Rightarrow> schema \<Rightarrow> string \<Rightarrow> string + SQLValidationOutput"
  sqlValidationAgent_experimentWithQuery ::
    "string \<Rightarrow> string \<Rightarrow> schema \<Rightarrow> string \<Rightarrow> string + alternative list"
  sqlExecutionAgent :: "string \<Rightarrow> bool \<Rightarrow> risk \<Rightarrow> string + SQLExecutionOutput"
  resultInterpretationAgent :: "string \<Rightarrow> string \<Rightarrow> row list \<Rightarrow> string + AskQLStructuredOutput"

definition notify :: "collaborators \<Rightarrow> AskQLState \<Rightarrow> event \<Rightarrow> unit io" where
  "notify C state ev = if_session (streamingService C) (sessionId state) ev"

subsection \<open>The nodes\<close>

definition loadSchema :: "collaborators \<Rightarrow> AskQLState \<Rightarrow> partial_state io" where
  "loadSchema C state =
     io_seq (notify C state SchemaLoading)
       (io_try
          (io_bind (await (databaseService_getSchemaInfo C)) (\<lambda>sch.
           io_seq (notify C state (SchemaLoaded (length sch)))
             (io_return [SetSchema sch])))
          (\<lambda>msg.
           io_seq (notify C state (StepError ''schema_loading'' msg))
             (io_return [SetError (Some (''Failed to load database schema: '' @ msg))])))"

definition convertNLToSQL :: "collaborators \<Rightarrow> AskQLState \<Rightarrow> partial_state io" where
  "convertNLToSQL C state =
     io_seq (notify C state (NLToSQLStarting (originalQuestion state)))
       (case schema state of
          None \<Rightarrow> io_return [SetError (Some ''Database schema not available'')]
        | Some sch \<Rightarrow>
            io_try
              (io_seq (notify C state NLToSQLProcessing)
                 (io_bind (await (nlToSqlAgent C (originalQuestion state) sch)) (\<lambda>result.
                  io_seq (notify C state
                            (NLToSQLCompleted (out_sqlQuery result) (out_confidence result)
                               (out_explanation result)))
                    (io_return
                       [SetSqlQuery (out_sqlQuery result),
                        SetQueryExplanation (out_explanation result),
                        SetSqlConfidence (out_confidence result)]))))
              (\<lambda>msg.
               io_seq (notify C state (StepError ''nl_to_sql'' msg))
                 (io_return [SetError (Some (''NL to SQL conversion failed: '' @ msg))])))"

definition validateSQL :: "collaborators \<Rightarrow> AskQLState \<Rightarrow> partial_state io" where
  "validateSQL C state =
     io_seq (notify C state SQLValidationStarting)
       (case schema state of
          None \<Rightarrow> io_return [SetError (Some ''SQL query or schema missing for validation'')]
        | Some sch \<Rightarrow>
            if \<not> truthy_str (sqlQuery state) then
              io_return [SetError (Some ''SQL query or schema missing for validation'')]
            else
              io_try
                (io_bind
                   (await (sqlValidationAgent_validateSQL C (str_or_empty (sqlQuery state))
                             (originalQuestion state) sch
                             (str_or_empty (queryExplanation state)))) (\<lambda>v.
                 io_seq (notify C state
                           (SQLValidationCompleted (isValid v) (riskLevel v) (issues v)))
                   (io_return [SetValidationResult v])))
                (\<lambda>msg.
                 io_seq (notify C state (StepError ''sql_validation'' msg))
                   (io_return [SetError (Some (''SQL validation failed: '' @ msg))])))"

definition bestAlternative :: "alternative list \<Rightarrow> alternative" where
  \<comment> \<open>\<^verbatim>\<open>alternatives.reduce((best, current) => current.confidence > best.confidence ? current : best)\<close>
     on a list that is not empty: the first element starts as \<open>best\<close>\<close>
  "bestAlternative alts =
     foldl (\<lambda>best current. if confidence current > confidence best then current else best)
       (hd alts) (tl alts)"

definition experimentWithAlternatives :: "collaborators \<Rightarrow> AskQLState \<Rightarrow> partial_state io" where
  "experimentWithAlternatives C state =
     io_seq (notify C state ExperimentationStarting)
       (case schema state of
          None \<Rightarrow> io_return []
        | Some sch \<Rightarrow>
            if \<not> truthy_str (sqlQuery state) then io_return []
            else
              io_try
                (io_bind
                   (await (sqlValidationAgent_experimentWithQuery C
                             (str_or_empty (sqlQuery state)) (originalQuestion state) sch
                             (str_or_empty (queryExplanation state)))) (\<lambda>alts.
                 io_seq (notify C state (ExperimentationCompleted (length alts)))
                   (if alts \<noteq> [] \<and>
                       confidence (bestAlternative alts) > num_or_zero (sqlConfidence state)
                    then
                      io_return
                        [SetAlternativeQueries alts,
                         SetSqlQuery (query (bestAlternative alts)),
                         SetQueryExplanation (explanation (bestAlternative alts)),
                         SetSqlConfidence (confidence (bestAlternative alts))]
                    else io_return [SetAlternativeQueries alts])))
                (\<lambda>msg.
                 io_seq (notify C state (StepError ''experimentation'' msg))
                   (io_return [])))"

definition executeSQL :: "collaborators \<Rightarrow> AskQLState \<Rightarrow> partial_state io" where
  "executeSQL C state =
     io_seq (notify C state (SQLExecutionStarting (str_or_empty (sqlQuery state))))
       (case validationResult state of
          None \<Rightarrow> io_return [SetError (Some ''SQL query or validation result missing'')]
        | Some v \<Rightarrow>
            if \<not> truthy_str (sqlQuery state) then
              io_return [SetError (Some ''SQL query or validation result missing'')]
            else
              io_try
                (io_bind
                   (await (sqlExecutionAgent C (str_or_empty (sqlQuery state)) (isValid v)
                             (riskLevel v))) (\<lambda>r.
                 io_seq (notify C state
                           (SQLExecutionCompleted (success r) (rowCount r) (executionTime r)
                              (exec_error r)))
                   (io_return [SetExecutionResult r])))
                (\<lambda>msg.
                 io_seq (notify C state (StepError ''sql_execution'' msg))
                   (io_return [SetError (Some (''SQL execution failed: '' @ msg))])))"

definition interpretResults :: "collaborators \<Rightarrow> AskQLState \<Rightarrow> partial_state io" where
  "interpretResults C state =
     io_seq (notify C state
               (ResultInterpretationStarting
                  (case executionResult state of None \<Rightarrow> 0 | Some r \<Rightarrow> rowCount r)))
       (case executionResult state of
          None \<Rightarrow>
            io_seq (notify C state
                      (StepError ''result_interpretation'' ''Missing execution result or SQL query''))
              (io_return
                 [SetError (Some ''Execution result or SQL query missing for interpretation'')])
        | Some r \<Rightarrow>
            if \<not> truthy_str (sqlQuery state) then
              io_seq (notify C state
                        (StepError ''result_interpretation''
                           ''Missing execution result or SQL query''))
                (io_return
                   [SetError (Some ''Execution result or SQL query missing for interpretation'')])
            else
              io_try
                (io_bind
                   (await (resultInterpretationAgent C (originalQuestion state)
                             (str_or_empty (sqlQuery state))
                             (case data r of None \<Rightarrow> [] | Some rows \<Rightarrow> rows))) (\<lambda>resp.
                 io_seq (notify C state (ResultInterpretationCompleted (summary resp)))
                   (io_return [SetFinalResponse resp])))
                (\<lambda>msg.
                 io_seq (notify C state (StepError ''result_interpretation'' msg))
                   (io_return [SetError (Some (''Result interpretation failed: '' @ msg))])))"

definition handleError :: "AskQLState \<Rightarrow> partial_state io" where
  "handleError state =
     (let count = (case retryCount state of None \<Rightarrow> 0 | Some n \<Rightarrow> n) + 1 in
      if count > 2 then
        io_return
          [SetError
             (Some (''Maximum retry attempts exceeded. Original error: '' @ template_str (error state))),
           SetRetryCount count]
      else io_return [SetError (error state), SetRetryCount count])"

subsection \<open>The conditional edges\<close>

definition shouldValidateSQL :: "AskQLState \<Rightarrow> string" where
  "shouldValidateSQL state = (if truthy_str (error state) then ''error'' else ''validate'')"

definition shouldExecuteOrExperiment :: "AskQLState \<Rightarrow> string" where
  "shouldExecuteOrExperiment state =
     (case validationResult state of
        None \<Rightarrow> ''error''
      | Some v \<Rightarrow>
          if truthy_str (error state) then ''error''
          else if \<not> isValid v \<or> \<not> shouldExecute v \<or>
                  (case sqlConfidence state of None \<Rightarrow> False | Some c \<Rightarrow> c \<noteq> 0 \<and> c < 70)
          then ''experiment''
          else ''execute'')"

definition shouldInterpretOrError :: "AskQLState \<Rightarrow> string" where
  "shouldInterpretOrError state =
     (case executionResult state of
        None \<Rightarrow> ''error''
      | Some r \<Rightarrow>
          if truthy_str (error state) then ''error''
          else if \<not> success r then ''error''
          else ''interpret'')"

subsection \<open>The graph and its execution\<close>

text \<open>
  \<^verbatim>\<open>buildWorkflow\<close>: the edges of the graph. A conditional edge looks the string its
  routing function returns up in the mapping given to \<^verbatim>\<open>addConditionalEdges\<close>.
\<close>

definition next_node :: "node \<Rightarrow> AskQLState \<Rightarrow> node option" where
  "next_node n state =
     (case n of
        load_schema \<Rightarrow> Some nl_to_sql
      | nl_to_sql \<Rightarrow>
          map_of [(''validate'', validate_sql), (''error'', handle_error)]
            (shouldValidateSQL state)
      | validate_sql \<Rightarrow>
          map_of [(''execute'', execute_sql), (''experiment'', experiment_alternatives),
                  (''error'', handle_error)]
            (shouldExecuteOrExperiment state)
      | experiment_alternatives \<Rightarrow> Some execute_sql
      | execute_sql \<Rightarrow>
          map_of [(''interpret'', interpret_results), (''error'', handle_error)]
            (shouldInterpretOrError state)
      | interpret_results \<Rightarrow> Some END
      | handle_error \<Rightarrow> Some END
      | END \<Rightarrow> None)"

definition run_node :: "collaborators \<Rightarrow> node \<Rightarrow> AskQLState \<Rightarrow> partial_state io" where
  "run_node C n state =
     (case n of
        load_schema \<Rightarrow> loadSchema C state
      | nl_to_sql \<Rightarrow> convertNLToSQL C state
      | validate_sql \<Rightarrow> validateSQL C state
      | experiment_alternatives \<Rightarrow> experimentWithAlternatives C state
      | execute_sql \<Rightarrow> executeSQL C state
      | interpret_results \<Rightarrow> interpretResults C state
      | handle_error \<Rightarrow> handleError state
      | END \<Rightarrow> io_return [])"

fun rank :: "node \<Rightarrow> nat" where
  "rank load_schema = 0"
| "rank nl_to_sql = 1"
| "rank validate_sql = 2"
| "rank experiment_alternatives = 3"
| "rank execute_sql = 4"
| "rank interpret_results = 5"
| "rank handle_error = 6"
| "rank END = 7"

lemma next_node_rank: "next_node n state = Some n' \<Longrightarrow> rank n < rank n'"
  by (cases n)
    (auto simp: next_node_def shouldValidateSQL_def shouldExecuteOrExperiment_def
      shouldInterpretOrError_def split: if_splits option.splits)

lemma rank_le: "rank n \<le> 7"
  by (cases n) simp_all

lemma next_node_measure: "next_node n state = Some n' \<Longrightarrow> 7 - rank n' < 7 - rank n"
  using next_node_rank [of n state n'] rank_le [of n'] by arith

text \<open>
  The graph engine, from node \<open>n\<close> with state \<open>state\<close>: enter the node, merge the update
  it returns into the state, follow the edge. An exception thrown by a node ends the
  execution and is thrown by the engine. The recursion ends because every edge leads to a
  node of higher rank.
\<close>

function walk :: "collaborators \<Rightarrow> node \<Rightarrow> AskQLState \<Rightarrow> AskQLState io" where
  "walk C n state w =
     (if n = END then (Inr state, w)
      else
        case run_node C n state (w\<lparr>visited := visited w @ [(n, state)]\<rparr>) of
          (Inl e, w') \<Rightarrow> (Inl e, w')
        | (Inr u, w') \<Rightarrow>
            (case next_node n (merge state u) of
               None \<Rightarrow> (Inl ''no edge'', w')
             | Some n' \<Rightarrow> walk C n' (merge state u) w'))"
  by pat_completeness auto
termination
  by (relation "measure (\<lambda>(C, n, state, w). 7 - rank n)") (auto dest: next_node_measure)

text \<open>
  \<^verbatim>\<open>buildWorkflow\<close> declares twelve channels: \<^verbatim>\<open>originalQuestion\<close>, \<^verbatim>\<open>schema\<close>, \<^verbatim>\<open>sqlQuery\<close>,
  \<^verbatim>\<open>queryExplanation\<close>, \<^verbatim>\<open>sqlConfidence\<close>, \<^verbatim>\<open>validationResult\<close>, \<^verbatim>\<open>alternativeQueries\<close>,
  \<^verbatim>\<open>executionResult\<close>, \<^verbatim>\<open>finalResponse\<close>, \<^verbatim>\<open>error\<close>, \<^verbatim>\<open>retryCount\<close> and \<^verbatim>\<open>messages\<close>. The
  state of the graph is made of its channels. \<^verbatim>\<open>sessionId\<close> is not one of them: the engine
  does not read this key from its input, no node and no routing function is handed it,
  and the state the engine returns does not have it.
\<close>

definition channels :: "AskQLState \<Rightarrow> AskQLState" where
  "channels input = input\<lparr>sessionId := None\<rparr>"

definition invoke :: "collaborators \<Rightarrow> AskQLState \<Rightarrow> AskQLState io" where
  \<comment> \<open>\<^verbatim>\<open>this.workflow.invoke(input)\<close>: the edge from \<^verbatim>\<open>__start__\<close> leads to \<^verbatim>\<open>load_schema\<close>\<close>
  "invoke C input = walk C load_schema (channels input)"

subsection \<open>The entry point\<close>

definition initialState :: "string \<Rightarrow> AskQLState" where
  "initialState question =
     \<lparr>originalQuestion = question, sessionId = None, schema = None, sqlQuery = None,
      queryExplanation = None, sqlConfidence = None, validationResult = None,
      alternativeQueries = None, executionResult = None, finalResponse = None, error = None,
      retryCount = Some 0, messages = []\<rparr>"

definition failedState :: "string \<Rightarrow> string \<Rightarrow> AskQLState" where
  \<comment> \<open>the object built in the \<^verbatim>\<open>catch\<close> block of \<^verbatim>\<open>processQuery\<close>\<close>
  "failedState question msg =
     (initialState question)\<lparr>error := Some (''Workflow execution failed: '' @ msg)\<rparr>"

definition processQuery :: "collaborators \<Rightarrow> string \<Rightarrow> string option \<Rightarrow> AskQLState io" where
  "processQuery C question sid =
     io_seq (if_session (streamingService C) sid SchemaLoading)
       (io_try
          (io_bind (invoke C ((initialState question)\<lparr>sessionId := sid\<rparr>)) (\<lambda>result.
           io_seq
             (if truthy_str (error result)
              then if_session (streamingService C) sid (WorkflowError (str_or_empty (error result)))
              else if_session (streamingService C) sid (WorkflowCompleted result))
             (io_return result)))
          (\<lambda>msg.
           io_seq (if_session (streamingService C) sid (WorkflowError msg))
             (io_return (failedState question msg))))"

subsection \<open>Notions used in the statements\<close>

definition world0 :: world where
  \<comment> \<open>the world before a run\<close>
  "world0 = \<lparr>notified = [], visited = []\<rparr>"

definition quiet :: sink where
  \<comment> \<open>a streaming service none of whose calls throws\<close>
  "quiet = (\<lambda>_ _ _. None)"

definition sink_returns :: "collaborators \<Rightarrow> string option \<Rightarrow> bool" where
  \<comment> \<open>no call to the streaming service can throw in a run with this session id: there is
     no session, or the service never throws\<close>
  "sink_returns C sid = (truthy_str sid \<longrightarrow> streamingService C = quiet)"

definition completion :: "AskQLState \<Rightarrow> event" where
  \<comment> \<open>the notification \<^verbatim>\<open>processQuery\<close> sends when the graph has returned \<open>result\<close>\<close>
  "completion result =
     (if truthy_str (error result) then WorkflowError (str_or_empty (error result))
      else WorkflowCompleted result)"

definition graph_run ::
  "collaborators \<Rightarrow> string \<Rightarrow> (string + AskQLState) \<times> (node \<times> AskQLState) list" where
  \<comment> \<open>the graph invoked on the initial state of a question: what it returns or throws,
     and the nodes it enters\<close>
  "graph_run C question =
     (case invoke C (initialState question) world0 of (r, w) \<Rightarrow> (r, visited w))"

definition entered :: "world \<Rightarrow> world \<Rightarrow> (node \<times> AskQLState) list" where
  \<comment> \<open>the nodes entered between an earlier world and a later one\<close>
  "entered w w' = drop (length (visited w)) (visited w')"

definition agent_of ::
  "(string \<Rightarrow> string + row list) \<Rightarrow> (nat \<Rightarrow> int) \<Rightarrow> string \<Rightarrow> bool \<Rightarrow> risk
     \<Rightarrow> string + SQLExecutionOutput" where
  \<comment> \<open>the repository's execution agent as the workflow sees it: its promise always
     resolves, every failure is in the object it resolves with\<close>
  "agent_of db now sql isValidated risk_level =
     Inr (fst (SQLExecutionAgent_executeSQL db now sql isValidated risk_level))"

definition disapproved :: "AskQLState \<Rightarrow> bool" where
  "disapproved s =
     (case validationResult s of None \<Rightarrow> False | Some v \<Rightarrow> \<not> isValid v \<or> riskLevel v = HIGH)"

subsection \<open>Example collaborators and states\<close>

text \<open>
  The collaborators of the specification's end-to-end scenario: one table, a confident
  translation, a validator that approves, a generator without alternatives, the
  repository's execution agent over a database that answers with one row, an interpreter
  that answers, and a streaming service that never throws. The other examples change one
  or two of them.
\<close>

definition approve :: SQLValidationOutput where
  "approve =
     \<lparr>isValid = True, issues = [], suggestions = [], improvedQuery = None, riskLevel = LOW,
      shouldExecute = True\<rparr>"

definition reject :: SQLValidationOutput where
  "reject =
     \<lparr>isValid = False, issues = [''the query counts the wrong rows''], suggestions = [],
      improvedQuery = None, riskLevel = MEDIUM, shouldExecute = False\<rparr>"

definition scenario :: collaborators where
  "scenario =
     \<lparr>streamingService = quiet,
      databaseService_getSchemaInfo = Inr [(''orders'', ''Table: orders'')],
      nlToSqlAgent = (\<lambda>question sch. Inr (NLToSQLOutput ''SELECT COUNT(*) FROM orders''
                        ''counts the rows of orders'' 92)),
      sqlValidationAgent_validateSQL = (\<lambda>sql question sch expl. Inr approve),
      sqlValidationAgent_experimentWithQuery = (\<lambda>sql question sch expl. Inr []),
      sqlExecutionAgent = agent_of (\<lambda>sql. Inr [[(''count'', JNumber 5)]]) (\<lambda>k. int k),
      resultInterpretationAgent =
        (\<lambda>question sql rows.
           Inr \<lparr>summary = ''There are 5 orders.'', table_should_show = False,
                 table_columns = [], table_data = []\<rparr>)\<rparr>"

definition three_alternatives :: "alternative list" where
  "three_alternatives =
     [\<lparr>query = ''SELECT COUNT(id) FROM orders'', explanation = ''counts the ids'',
       confidence = 40\<rparr>,
      \<lparr>query = ''SELECT COUNT(1) FROM orders'', explanation = ''counts a constant'',
       confidence = 85\<rparr>,
      \<lparr>query = ''SELECT SUM(1) FROM orders'', explanation = ''adds up ones'',
       confidence = 60\<rparr>]"

definition rejecting :: collaborators where
  "rejecting =
     scenario
       \<lparr>nlToSqlAgent := (\<lambda>question sch. Inr (NLToSQLOutput ''SELECT COUNT(*) FROM orders''
                           ''counts the rows of orders'' 50)),
        sqlValidationAgent_validateSQL := (\<lambda>sql question sch expl. Inr reject),
        sqlValidationAgent_experimentWithQuery :=
          (\<lambda>sql question sch expl. Inr three_alternatives)\<rparr>"

definition high_risk :: collaborators where
  "high_risk =
     scenario\<lparr>sqlValidationAgent_validateSQL :=
                 (\<lambda>sql question sch expl. Inr (approve\<lparr>riskLevel := HIGH\<rparr>))\<rparr>"

definition overloaded_generator :: collaborators where
  "overloaded_generator =
     scenario
       \<lparr>nlToSqlAgent := (\<lambda>question sch. Inr (NLToSQLOutput ''SELECT COUNT(*) FROM orders''
                           ''counts the rows of orders'' 50)),
        sqlValidationAgent_experimentWithQuery :=
          (\<lambda>sql question sch expl. Inl ''model overloaded'')\<rparr>"

definition unavailable_translator :: collaborators where
  "unavailable_translator =
     scenario\<lparr>nlToSqlAgent := (\<lambda>question sch. Inl ''model unavailable'')\<rparr>"

definition lost_connection :: collaborators where
  "lost_connection = scenario\<lparr>sqlExecutionAgent := (\<lambda>sql v r. Inl ''connection lost'')\<rparr>"

definition throwing_sink :: sink where
  "throwing_sink = (\<lambda>calls sid ev. Some ''socket closed'')"

definition sink_throwing_on_completed :: sink where
  "sink_throwing_on_completed =
     (\<lambda>calls sid ev. case ev of WorkflowCompleted result \<Rightarrow> Some ''socket closed'' | _ \<Rightarrow> None)"

definition sink_throwing_after_start :: sink where
  "sink_throwing_after_start =
     (\<lambda>calls sid ev. if ev = SchemaLoading then None else Some ''socket closed'')"

definition state_valid_conf :: "real \<Rightarrow> AskQLState" where
  \<comment> \<open>a state after Validate: the query is valid, execution is recommended, no error, and
     the translator's confidence is \<open>c\<close>\<close>
  "state_valid_conf c =
     (initialState ''how many orders?'')
       \<lparr>schema := Some [(''orders'', ''Table: orders'')],
        sqlQuery := Some ''SELECT COUNT(*) FROM orders'',
        queryExplanation := Some ''counts the rows'',
        sqlConfidence := Some c,
        validationResult := Some approve\<rparr>"

definition failed_execution_state :: AskQLState where
  "failed_execution_state =
     (state_valid_conf 92)
       \<lparr>executionResult := Some (failure ''Query must be validated before execution'' 0)\<rparr>"

section \<open>Properties\<close>

subsection \<open>Unfolding the engine and the effects\<close>

lemma walk_END: "walk C END state w = (Inr state, w)"
  by simp

lemma walk_step:
  "n \<noteq> END \<Longrightarrow> walk C n state w =
     (case run_node C n state (w\<lparr>visited := visited w @ [(n, state)]\<rparr>) of
        (Inl e, w') \<Rightarrow> (Inl e, w')
      | (Inr u, w') \<Rightarrow>
          (case next_node n (merge state u) of
             None \<Rightarrow> (Inl ''no edge'', w')
           | Some n' \<Rightarrow> walk C n' (merge state u) w'))"
  by simp

declare walk.simps [simp del]

lemmas flow_defs = io_seq_def io_bind_def io_try_def io_return_def await_def

lemmas sink_defs = emit_def if_session_def notify_def

lemmas node_defs =
  run_node_def loadSchema_def convertNLToSQL_def validateSQL_def
  experimentWithAlternatives_def executeSQL_def interpretResults_def handleError_def

lemmas route_defs =
  next_node_def shouldValidateSQL_def shouldExecuteOrExperiment_def shouldInterpretOrError_def

lemmas js_defs = truthy_str_def str_or_empty_def num_or_zero_def template_str_def

lemmas run_defs =
  processQuery_def invoke_def channels_def initialState_def failedState_def world0_def quiet_def walk_step
  walk_END flow_defs sink_defs node_defs route_defs js_defs merge_def

lemma notify_returns:
  "sink_returns C (sessionId state) \<Longrightarrow>
   notify C state ev w =
     (Inr (), w\<lparr>notified := notified w @
        (if truthy_str (sessionId state) then [(str_or_empty (sessionId state), ev)] else [])\<rparr>)"
  by (auto simp: sink_returns_def sink_defs quiet_def flow_defs js_defs split: option.splits)

lemma merge_empty: "merge state [] = state"
  by (simp add: merge_def)

lemma initial_fields:
  "sessionId (initialState question) = None"
  "finalResponse (initialState question) = None"
  "validationResult (initialState question) = None"
  "retryCount (initialState question) = Some 0"
  "finalResponse (failedState question msg) = None"
  "retryCount (failedState question msg) = Some 0"
  "error (failedState question msg) = Some (''Workflow execution failed: '' @ msg)"
  by (simp_all add: initialState_def failedState_def)

lemma invoke_initial:
  "invoke C ((initialState question)\<lparr>sessionId := sid\<rparr>) = walk C load_schema (initialState question)"
  by (simp add: invoke_def channels_def initialState_def)

subsection \<open>The execution agent\<close>

text \<open>
  The three refusals of \<^verbatim>\<open>SQLExecutionAgent.executeSQL\<close>: a query that is not validated, a
  query of HIGH risk, and a query that does not start with \<^verbatim>\<open>SELECT\<close> are answered with
  \<open>success = False\<close> and the reason, and no query is sent to the database.
\<close>

lemma agent_refusals:
  "\<not> v \<Longrightarrow> SQLExecutionAgent_executeSQL db now q v r =
     (failure ''Query must be validated before execution'' (now 1 - now 0), [])"
  "v \<Longrightarrow> r = HIGH \<Longrightarrow> SQLExecutionAgent_executeSQL db now q v r =
     (failure ''High-risk queries are not allowed to execute'' (now 1 - now 0), [])"
  "v \<Longrightarrow> r \<noteq> HIGH \<Longrightarrow> \<not> startsWith (toUpperCase (trim q)) ''SELECT'' \<Longrightarrow>
   SQLExecutionAgent_executeSQL db now q v r =
     (failure ''Only SELECT queries are allowed'' (now 1 - now 0), [])"
  by (simp_all add: SQLExecutionAgent_executeSQL_def)

lemma agent_executes:
  "v \<Longrightarrow> r \<noteq> HIGH \<Longrightarrow> startsWith (toUpperCase (trim q)) ''SELECT'' \<Longrightarrow>
   fst (SQLExecutionAgent_executeSQL (\<lambda>sql. Inr rows) now q v r) =
     \<lparr>success = True, data = Some rows, exec_error = None, executionTime = now 1 - now 0,
      rowCount = length rows, columnInfo = extractColumnInfo rows\<rparr>"
  by (simp add: SQLExecutionAgent_executeSQL_def Let_def)

lemma scenario_query_is_select:
  "startsWith (toUpperCase (trim ''SELECT COUNT(*) FROM orders'')) ''SELECT''"
  "startsWith (toUpperCase (trim ''SELECT COUNT(1) FROM orders'')) ''SELECT''"
  by (simp_all add: startsWith_def toUpperCase_def trim_def is_space_def upper_char_def)

lemmas scenario_defs =
  scenario_def approve_def reject_def rejecting_def high_risk_def overloaded_generator_def
  throwing_sink_def sink_throwing_on_completed_def sink_throwing_after_start_def
  unavailable_translator_def lost_connection_def
  three_alternatives_def bestAlternative_def agent_of_def agent_refusals agent_executes
  scenario_query_is_select failure_def

subsection \<open>Walks of the graph\<close>

text \<open>A node changes the notifications, never the record of visited nodes.\<close>

lemma run_node_visited: "visited (snd (run_node C n state w)) = visited w"
  by (cases n)
    (auto simp: node_defs flow_defs sink_defs Let_def
      split: option.splits sum.splits prod.splits if_splits)

lemma if_session_visited: "visited (snd (if_session s sid ev w)) = visited w"
  by (auto simp: sink_defs flow_defs split: option.splits)

text \<open>The nodes a walk enters have strictly increasing ranks.\<close>

lemma walk_trace:
  "\<exists>tr. visited (snd (walk C n state w)) = visited w @ tr \<and>
        sorted_wrt (<) (map (rank \<circ> fst) tr) \<and>
        (\<forall>e \<in> set tr. rank n \<le> rank (fst e) \<and> fst e \<noteq> END)"
proof (induction C n state w rule: walk.induct)
  case (1 C n state w)
  show ?case
  proof (cases "n = END")
    case True
    then show ?thesis by (simp add: walk_END)
  next
    case False
    obtain r w1 where run: "run_node C n state (w\<lparr>visited := visited w @ [(n, state)]\<rparr>) = (r, w1)"
      by (cases "run_node C n state (w\<lparr>visited := visited w @ [(n, state)]\<rparr>)")
    have vis: "visited w1 = visited w @ [(n, state)]"
      using run_node_visited [of C n state "w\<lparr>visited := visited w @ [(n, state)]\<rparr>"] run
      by simp
    show ?thesis
    proof (cases r)
      case (Inl e)
      with run vis False show ?thesis by (simp add: walk_step)
    next
      case (Inr u)
      show ?thesis
      proof (cases "next_node n (merge state u)")
        case None
        with run vis False Inr show ?thesis by (simp add: walk_step)
      next
        case (Some n')
        from "1.IH" [OF False run [symmetric] Inr Some]
        obtain tr where tr: "visited (snd (walk C n' (merge state u) w1)) = visited w1 @ tr"
          "sorted_wrt (<) (map (rank \<circ> fst) tr)"
          "\<forall>e \<in> set tr. rank n' \<le> rank (fst e) \<and> fst e \<noteq> END"
          by blast
        have less: "rank n < rank n'"
          using Some by (rule next_node_rank)
        have "visited (snd (walk C n state w)) = visited w @ ((n, state) # tr)"
          using run False Inr Some tr(1) vis by (simp add: walk_step)
        moreover have "sorted_wrt (<) (map (rank \<circ> fst) ((n, state) # tr))"
          using tr(2,3) less by auto
        moreover have "\<forall>e \<in> set ((n, state) # tr). rank n \<le> rank (fst e) \<and> fst e \<noteq> END"
          using tr(3) less False by auto
        ultimately show ?thesis by blast
      qed
    qed
  qed
qed

lemma walk_distinct:
  "visited w = [] \<Longrightarrow> distinct (map fst (visited (snd (walk C n state w))))"
proof -
  assume "visited w = []"
  then obtain tr where tr: "visited (snd (walk C n state w)) = tr"
    "sorted_wrt (<) (map (rank \<circ> fst) tr)"
    using walk_trace [of C n state w] by auto
  have "distinct (map (rank \<circ> fst) tr)"
    using tr(2) strict_sorted_iff [of "map (rank \<circ> fst) tr"] by simp
  then have "distinct tr" and "inj_on fst (set tr)"
    by (auto simp: distinct_map dest: inj_on_imageI2)
  then show ?thesis
    using tr(1) by (simp add: distinct_map)
qed

lemma entered_all: "visited w = [] \<Longrightarrow> entered w w' = visited w'"
  by (simp add: entered_def)

lemma entered_not_END: "e \<in> set (entered w (snd (walk C n state w))) \<Longrightarrow> fst e \<noteq> END"
  using walk_trace [of C n state w] by (auto simp: entered_def)

lemma walk_go:
  assumes "n \<noteq> END"
    and "run_node C n state (w\<lparr>visited := visited w @ [(n, state)]\<rparr>) = (Inr u, w1)"
    and "next_node n (merge state u) = Some n'"
  shows "entered w (snd (walk C n state w)) =
           (n, state) # entered w1 (snd (walk C n' (merge state u) w1))"
    and "fst (walk C n state w) = fst (walk C n' (merge state u) w1)"
proof -
  have vis: "visited w1 = visited w @ [(n, state)]"
    using run_node_visited [of C n state "w\<lparr>visited := visited w @ [(n, state)]\<rparr>"] assms(2)
    by simp
  obtain tr where tr: "visited (snd (walk C n' (merge state u) w1)) = visited w1 @ tr"
    using walk_trace [of C n' "merge state u" w1] by blast
  show "entered w (snd (walk C n state w)) =
           (n, state) # entered w1 (snd (walk C n' (merge state u) w1))"
    using assms tr vis by (simp add: walk_step entered_def)
  show "fst (walk C n state w) = fst (walk C n' (merge state u) w1)"
    using assms by (simp add: walk_step)
qed

lemma walk_stop:
  assumes "n \<noteq> END"
    and "run_node C n state (w\<lparr>visited := visited w @ [(n, state)]\<rparr>) = (r, w1)"
    and "(\<exists>e. r = Inl e) \<or> (\<exists>u. r = Inr u \<and> next_node n (merge state u) = None)"
  shows "entered w (snd (walk C n state w)) = [(n, state)]"
    and "\<exists>e. fst (walk C n state w) = Inl e"
proof -
  have vis: "visited w1 = visited w @ [(n, state)]"
    using run_node_visited [of C n state "w\<lparr>visited := visited w @ [(n, state)]\<rparr>"] assms(2)
    by simp
  show "entered w (snd (walk C n state w)) = [(n, state)]"
    using assms vis by (auto simp: walk_step entered_def)
  show "\<exists>e. fst (walk C n state w) = Inl e"
    using assms by (auto simp: walk_step)
qed

text \<open>
  An invariant of the states entering the nodes: if it holds where the walk starts and
  every edge preserves it, it holds of every node the walk enters and of the final state
  (the state entering \<open>END\<close>).
\<close>

lemma walk_inv:
  assumes "I n state"
    and "\<And>n state w u w' n'. I n state \<Longrightarrow> n \<noteq> END \<Longrightarrow>
      run_node C n state w = (Inr u, w') \<Longrightarrow> next_node n (merge state u) = Some n' \<Longrightarrow>
      I n' (merge state u)"
  shows "(\<forall>e \<in> set (entered w (snd (walk C n state w))). I (fst e) (snd e)) \<and>
     (\<forall>s. fst (walk C n state w) = Inr s \<longrightarrow> I END s)"
  using assms
proof (induction C n state w rule: walk.induct)
  case (1 C n state w)
  note step = "1.prems"(2)
  show ?case
  proof (cases "n = END")
    case True
    with "1.prems" show ?thesis by (simp add: walk_END entered_def)
  next
    case False
    obtain r w1 where run: "run_node C n state (w\<lparr>visited := visited w @ [(n, state)]\<rparr>) = (r, w1)"
      by (cases "run_node C n state (w\<lparr>visited := visited w @ [(n, state)]\<rparr>)")
    have vis: "visited w1 = visited w @ [(n, state)]"
      using run_node_visited [of C n state "w\<lparr>visited := visited w @ [(n, state)]\<rparr>"] run
      by simp
    show ?thesis
    proof (cases r)
      case (Inl e)
      with run vis False "1.prems"(1) show ?thesis by (simp add: walk_step entered_def)
    next
      case (Inr u)
      show ?thesis
      proof (cases "next_node n (merge state u)")
        case None
        with run vis False Inr "1.prems"(1) show ?thesis by (simp add: walk_step entered_def)
      next
        case (Some n')
        have run': "run_node C n state (w\<lparr>visited := visited w @ [(n, state)]\<rparr>) = (Inr u, w1)"
          using run Inr by simp
        have "I n' (merge state u)"
          by (rule step [OF "1.prems"(1) False run' Some])
        from "1.IH" [OF False run [symmetric] Inr Some this step]
        have ih: "\<forall>e \<in> set (entered w1 (snd (walk C n' (merge state u) w1))). I (fst e) (snd e)"
          "\<forall>s. fst (walk C n' (merge state u) w1) = Inr s \<longrightarrow> I END s"
          by simp_all
        obtain tr where tr: "visited (snd (walk C n' (merge state u) w1)) = visited w1 @ tr"
          using walk_trace [of C n' "merge state u" w1] by blast
        have "entered w (snd (walk C n state w)) = (n, state) # entered w1 (snd (walk C n' (merge state u) w1))"
          using run False Inr Some tr vis by (simp add: walk_step entered_def)
        moreover have "fst (walk C n state w) = fst (walk C n' (merge state u) w1)"
          using run False Inr Some by (simp add: walk_step)
        ultimately show ?thesis
          using ih "1.prems"(1) by simp
      qed
    qed
  qed
qed

text \<open>What the edges and the nodes leave alone.\<close>

lemma next_node_cases:
  "next_node n s = Some n' \<Longrightarrow>
     (n = load_schema \<and> n' = nl_to_sql) \<or>
     (n = nl_to_sql \<and> (n' = validate_sql \<or> n' = handle_error)) \<or>
     (n = validate_sql \<and> (n' = execute_sql \<or> n' = experiment_alternatives \<or> n' = handle_error)) \<or>
     (n = experiment_alternatives \<and> n' = execute_sql) \<or>
     (n = execute_sql \<and> (n' = interpret_results \<or> n' = handle_error)) \<or>
     (n = interpret_results \<and> n' = END) \<or>
     (n = handle_error \<and> n' = END)"
  by (cases n) (auto simp: route_defs split: if_splits option.splits)

lemma next_node_total: "n \<noteq> END \<Longrightarrow> \<exists>n'. next_node n s = Some n'"
  by (cases n) (auto simp: route_defs split: option.splits)

lemma interpret_entered_after_success:
  "next_node n s = Some interpret_results \<Longrightarrow>
   n = execute_sql \<and> \<not> truthy_str (error s) \<and> (\<exists>r. executionResult s = Some r \<and> success r)"
  by (cases n) (auto simp: route_defs split: if_splits option.splits)

lemma error_routes_to_handle_error:
  "truthy_str (error s) \<Longrightarrow>
   next_node nl_to_sql s = Some handle_error \<and> next_node validate_sql s = Some handle_error \<and>
   next_node execute_sql s = Some handle_error"
  by (simp add: route_defs split: option.splits)

lemma run_node_validationResult:
  "run_node C n state w = (Inr u, w') \<Longrightarrow> n \<noteq> validate_sql \<Longrightarrow>
   validationResult (merge state u) = validationResult state"
  by (cases n)
    (auto simp: node_defs flow_defs sink_defs merge_def Let_def
      split: option.splits sum.splits prod.splits if_splits)

lemma run_node_finalResponse:
  "run_node C n state w = (Inr u, w') \<Longrightarrow> n \<noteq> interpret_results \<Longrightarrow>
   finalResponse (merge state u) = finalResponse state"
  by (cases n)
    (auto simp: node_defs flow_defs sink_defs merge_def Let_def
      split: option.splits sum.splits prod.splits if_splits)

lemma run_node_retryCount:
  "run_node C n state w = (Inr u, w') \<Longrightarrow> n \<noteq> handle_error \<Longrightarrow>
   retryCount (merge state u) = retryCount state"
  by (cases n)
    (auto simp: node_defs flow_defs sink_defs merge_def
      split: option.splits sum.splits prod.splits if_splits)

lemma interpret_update:
  "run_node C interpret_results st w = (Inr u, w') \<Longrightarrow>
   (\<exists>r. u = [SetFinalResponse r]) \<or> (\<exists>m. u = [SetError (Some m)])"
  by (auto simp: node_defs flow_defs sink_defs
      split: option.splits sum.splits prod.splits if_splits)

lemma merge_sessionId: "sessionId (merge state u) = sessionId state"
proof -
  have "sessionId (fold apply_field u s) = sessionId s" for s
  proof (induction u arbitrary: s)
    case Nil
    show ?case by simp
  next
    case (Cons a u)
    show ?case using Cons.IH [of "apply_field a s"] by (cases a) simp_all
  qed
  then show ?thesis by (simp add: merge_def)
qed

text \<open>
  \<^verbatim>\<open>processQuery\<close> either throws before the graph starts, or runs the graph once and
  returns the graph's final state or the state built in its \<^verbatim>\<open>catch\<close> block.
\<close>

lemma handler_outcome:
  "visited (snd (io_seq (if_session s sid (WorkflowError msg)) (io_return x) w)) = visited w \<and>
   (\<forall>y. fst (io_seq (if_session s sid (WorkflowError msg)) (io_return x) w) = Inr y \<longrightarrow> y = x)"
  using if_session_visited [of s sid "WorkflowError msg" w]
  by (cases "if_session s sid (WorkflowError msg) w")
    (auto simp: flow_defs split: sum.splits)

lemma processQuery_outcome:
  "(visited (snd (processQuery C question sid w)) = visited w \<and>
      (\<exists>e. fst (processQuery C question sid w) = Inl e)) \<or>
   (\<exists>w0. visited w0 = visited w \<and>
      visited (snd (processQuery C question sid w)) =
        visited (snd (invoke C ((initialState question)\<lparr>sessionId := sid\<rparr>) w0)) \<and>
      (\<forall>s. fst (processQuery C question sid w) = Inr s \<longrightarrow>
         fst (invoke C ((initialState question)\<lparr>sessionId := sid\<rparr>) w0) = Inr s \<or>
         (\<exists>msg. s = failedState question msg)))"
proof -
  let ?sink = "streamingService C"
  let ?st0 = "(initialState question)\<lparr>sessionId := sid\<rparr>"
  let ?failed = "failedState question"
  let ?catch = "\<lambda>msg. io_seq (if_session ?sink sid (WorkflowError msg)) (io_return (?failed msg))"
  obtain r0 w0 where first: "if_session ?sink sid SchemaLoading w = (r0, w0)"
    by (cases "if_session ?sink sid SchemaLoading w")
  have v0: "visited w0 = visited w"
    using if_session_visited [of ?sink sid SchemaLoading w] first by simp
  show ?thesis
  proof (cases r0)
    case (Inl e)
    then have "processQuery C question sid w = (Inl e, w0)"
      using first by (simp add: processQuery_def io_seq_def io_bind_def)
    then show ?thesis using v0 by simp
  next
    case (Inr x)
    obtain r1 w1 where inv: "invoke C ?st0 w0 = (r1, w1)"
      by (cases "invoke C ?st0 w0")
    have pq: "processQuery C question sid w =
        io_try (io_bind (invoke C ?st0) (\<lambda>result.
           io_seq
             (if truthy_str (error result)
              then if_session ?sink sid (WorkflowError (str_or_empty (error result)))
              else if_session ?sink sid (WorkflowCompleted result))
             (io_return result))) ?catch w0"
      using first Inr by (simp add: processQuery_def io_seq_def io_bind_def)
    have "visited (snd (processQuery C question sid w)) = visited w1 \<and>
      (\<forall>s. fst (processQuery C question sid w) = Inr s \<longrightarrow>
         r1 = Inr s \<or> (\<exists>msg. s = failedState question msg))"
    proof (cases r1)
      case (Inl e)
      then have "processQuery C question sid w = ?catch e w1"
        using pq inv by (simp add: io_try_def io_bind_def)
      then show ?thesis
        using handler_outcome [of ?sink sid e "?failed e" w1] Inl by auto
    next
      case (Inr s)
      let ?B = "if truthy_str (error s)
              then if_session ?sink sid (WorkflowError (str_or_empty (error s)))
              else if_session ?sink sid (WorkflowCompleted s)"
      obtain r2 w2 where b: "?B w1 = (r2, w2)"
        by (cases "?B w1")
      have "visited (snd (?B w1)) = visited w1"
        by (simp add: if_session_visited)
      then have v2: "visited w2 = visited w1"
        using b by simp
      show ?thesis
      proof (cases r2)
        case (Inl e)
        then have "processQuery C question sid w = ?catch e w2"
          using pq inv Inr b by (simp add: io_try_def io_bind_def io_seq_def)
        then show ?thesis
          using handler_outcome [of ?sink sid e "?failed e" w2] v2 by auto
      next
        case (Inr y)
        then have "processQuery C question sid w = (Inr s, w2)"
          using pq inv \<open>r1 = Inr s\<close> b by (simp add: io_try_def io_bind_def io_seq_def io_return_def)
        then show ?thesis
          using v2 \<open>r1 = Inr s\<close> by simp
      qed
    qed
    then show ?thesis
      using v0 inv by auto
  qed
qed

lemma processQuery_entered [consumes 1, case_names thrown walked]:
  assumes "visited w = []"
  obtains (thrown) e where "visited (snd (processQuery C question sid w)) = []"
      and "fst (processQuery C question sid w) = Inl e"
    | (walked) w0 where
      "visited (snd (processQuery C question sid w)) =
         entered w0 (snd (walk C load_schema (initialState question) w0))"
      and "\<And>s. fst (processQuery C question sid w) = Inr s \<Longrightarrow>
         fst (walk C load_schema (initialState question) w0) = Inr s \<or>
         (\<exists>msg. s = failedState question msg)"
proof -
  from processQuery_outcome [of C question sid w]
  show thesis
  proof
    assume "visited (snd (processQuery C question sid w)) = visited w \<and>
      (\<exists>e. fst (processQuery C question sid w) = Inl e)"
    with assms thrown show thesis by auto
  next
    assume "\<exists>w0. visited w0 = visited w \<and>
      visited (snd (processQuery C question sid w)) =
        visited (snd (invoke C ((initialState question)\<lparr>sessionId := sid\<rparr>) w0)) \<and>
      (\<forall>s. fst (processQuery C question sid w) = Inr s \<longrightarrow>
         fst (invoke C ((initialState question)\<lparr>sessionId := sid\<rparr>) w0) = Inr s \<or>
         (\<exists>msg. s = failedState question msg))"
    then obtain w0 where "visited w0 = visited w"
      "visited (snd (processQuery C question sid w)) =
        visited (snd (invoke C ((initialState question)\<lparr>sessionId := sid\<rparr>) w0))"
      "\<forall>s. fst (processQuery C question sid w) = Inr s \<longrightarrow>
         fst (invoke C ((initialState question)\<lparr>sessionId := sid\<rparr>) w0) = Inr s \<or>
         (\<exists>msg. s = failedState question msg)"
      by blast
    with assms show thesis
      by (intro walked [of w0]) (simp_all add: invoke_initial entered_def)
  qed
qed

text \<open>When no call to the streaming service throws, no node throws.\<close>

lemma run_node_returns:
  "sink_returns C (sessionId state) \<Longrightarrow> \<exists>u. fst (run_node C n state w) = Inr u"
  by (cases n)
    (auto simp: node_defs flow_defs notify_returns Let_def split: option.splits sum.splits)

subsection \<open>Runs of the graph have no session\<close>

text \<open>
  A node that is handed a state without \<open>sessionId\<close> makes no call to the streaming
  service; it returns, and what it returns does not depend on the service.
\<close>

lemma sink_returns_None: "sink_returns C None"
  by (simp add: sink_returns_def truthy_str_def)

lemma notify_sessionless: "sessionId state = None \<Longrightarrow> notify C state ev w = (Inr (), w)"
  by (simp add: sink_defs io_return_def)

lemma run_node_pure:
  assumes "sessionId st = None"
  shows "run_node (C\<lparr>streamingService := k\<rparr>) n st w = (fst (run_node C n st w'), w)"
  by (cases n)
    (auto simp: node_defs flow_defs notify_sessionless [OF assms] Let_def
      split: option.splits sum.splits)

lemma run_node_sessionless:
  assumes "sessionId st = None"
  shows "\<exists>u. \<forall>k w. run_node (C\<lparr>streamingService := k\<rparr>) n st w = (Inr u, w)"
proof -
  have "sink_returns C (sessionId st)"
    using assms by (simp add: sink_returns_None)
  then obtain u where "fst (run_node C n st world0) = Inr u"
    using run_node_returns by blast
  moreover have "run_node (C\<lparr>streamingService := k\<rparr>) n st w = (fst (run_node C n st world0), w)"
    for k w
    using assms by (rule run_node_pure)
  ultimately show ?thesis by auto
qed

text \<open>
  So does a walk from such a state: it reaches \<open>END\<close>, through \<^verbatim>\<open>interpret_results\<close> or
  \<^verbatim>\<open>handle_error\<close>, and the state it returns and the nodes it enters are the same for
  every streaming service.
\<close>

lemma walk_sessionless:
  "sessionId st = None \<Longrightarrow>
   \<exists>s tr. (\<forall>k w. walk (C\<lparr>streamingService := k\<rparr>) n st w =
                    (Inr s, w\<lparr>visited := visited w @ tr\<rparr>)) \<and>
          sessionId s = None \<and>
          (n = END \<longrightarrow> tr = []) \<and>
          (n \<noteq> END \<longrightarrow>
             tr \<noteq> [] \<and> (fst (last tr) = interpret_results \<or> fst (last tr) = handle_error))"
proof (induction "7 - rank n" arbitrary: n st rule: less_induct)
  case less
  show ?case
  proof (cases "n = END")
    case True
    then have "\<forall>k w. walk (C\<lparr>streamingService := k\<rparr>) n st w = (Inr st, w\<lparr>visited := visited w @ []\<rparr>)"
      by (simp add: walk_END)
    with True less.prems show ?thesis by blast
  next
    case False
    obtain u where u: "\<forall>k w. run_node (C\<lparr>streamingService := k\<rparr>) n st w = (Inr u, w)"
      using run_node_sessionless [OF less.prems, of C n] by blast
    obtain n' where n': "next_node n (merge st u) = Some n'"
      using next_node_total [OF False] by blast
    have "sessionId (merge st u) = None"
      using less.prems by (simp add: merge_sessionId)
    from less.hyps [OF next_node_measure [OF n'] this]
    obtain s tr where s:
      "\<forall>k w. walk (C\<lparr>streamingService := k\<rparr>) n' (merge st u) w =
               (Inr s, w\<lparr>visited := visited w @ tr\<rparr>)"
      "sessionId s = None" "n' = END \<longrightarrow> tr = []"
      "n' \<noteq> END \<longrightarrow>
         tr \<noteq> [] \<and> (fst (last tr) = interpret_results \<or> fst (last tr) = handle_error)"
      by blast
    have "\<forall>k w. walk (C\<lparr>streamingService := k\<rparr>) n st w =
                 (Inr s, w\<lparr>visited := visited w @ ((n, st) # tr)\<rparr>)"
      using False u n' s(1) by (simp add: walk_step)
    moreover have "fst (last ((n, st) # tr)) = interpret_results \<or>
        fst (last ((n, st) # tr)) = handle_error"
      using s(3,4) next_node_cases [OF n'] by (cases "n' = END") auto
    ultimately show ?thesis
      using False s(2) by blast
  qed
qed

lemma graph_run_returns:
  "\<exists>s tr. graph_run C question = (Inr s, tr) \<and> sessionId s = None \<and> tr \<noteq> [] \<and>
     (fst (last tr) = interpret_results \<or> fst (last tr) = handle_error) \<and>
     (\<forall>k sid w. invoke (C\<lparr>streamingService := k\<rparr>) ((initialState question)\<lparr>sessionId := sid\<rparr>) w =
                   (Inr s, w\<lparr>visited := visited w @ tr\<rparr>))"
proof -
  have "sessionId (initialState question) = None"
    by (rule initial_fields)
  from walk_sessionless [where C = C and n = load_schema, OF this]
  obtain s tr where s:
    "\<forall>k w. walk (C\<lparr>streamingService := k\<rparr>) load_schema (initialState question) w =
             (Inr s, w\<lparr>visited := visited w @ tr\<rparr>)"
    "sessionId s = None"
    "tr \<noteq> [] \<and> (fst (last tr) = interpret_results \<or> fst (last tr) = handle_error)"
    by auto
  have "walk (C\<lparr>streamingService := streamingService C\<rparr>) load_schema (initialState question)
        world0 = (Inr s, world0\<lparr>visited := visited world0 @ tr\<rparr>)"
    using s(1) by blast
  then have "walk C load_schema (initialState question) world0 = (Inr s, world0\<lparr>visited := tr\<rparr>)"
    by (simp add: world0_def)
  moreover have "invoke C (initialState question) = walk C load_schema (initialState question)"
    using invoke_initial [where C = C and question = question and sid = None]
    by (simp add: initialState_def)
  ultimately have "graph_run C question = (Inr s, tr)"
    by (simp add: graph_run_def)
  then show ?thesis
    using s by (auto simp: invoke_initial)
qed

lemma graph_run_service: "graph_run (C\<lparr>streamingService := k\<rparr>) question = graph_run C question"
proof -
  let ?st0 = "(initialState question)\<lparr>sessionId := None\<rparr>"
  obtain s tr where inv:
    "\<forall>k sid w. invoke (C\<lparr>streamingService := k\<rparr>) ((initialState question)\<lparr>sessionId := sid\<rparr>) w =
                   (Inr s, w\<lparr>visited := visited w @ tr\<rparr>)"
    using graph_run_returns [of C question] by blast
  have "invoke (C\<lparr>streamingService := k\<rparr>) ?st0 world0 =
      (Inr s, world0\<lparr>visited := visited world0 @ tr\<rparr>)"
    using inv by blast
  moreover have "invoke (C\<lparr>streamingService := streamingService C\<rparr>) ?st0 world0 =
      (Inr s, world0\<lparr>visited := visited world0 @ tr\<rparr>)"
    using inv by blast
  then have "invoke C ?st0 world0 = (Inr s, world0\<lparr>visited := visited world0 @ tr\<rparr>)"
    by simp
  ultimately show ?thesis
    by (simp add: graph_run_def initialState_def)
qed

text \<open>
  \<^verbatim>\<open>processQuery\<close>, case by case: without a session id it returns what the graph returns.
  With a session id it throws what its first notification throws; it returns what the
  graph returns when the notification of the outcome returns; and when that notification
  throws, it notifies the error and returns the state of its \<^verbatim>\<open>catch\<close> block, or throws
  what this last notification throws.
\<close>

lemma processQuery_cases:
  assumes "graph_run C question = (Inr s, tr)"
  shows "processQuery C question sid w =
     (case sid of
        None \<Rightarrow> (Inr s, w\<lparr>visited := visited w @ tr\<rparr>)
      | Some i \<Rightarrow>
          if i = [] then (Inr s, w\<lparr>visited := visited w @ tr\<rparr>)
          else
            (case streamingService C (notified w) i SchemaLoading of
               Some e \<Rightarrow> (Inl e, w\<lparr>notified := notified w @ [(i, SchemaLoading)]\<rparr>)
             | None \<Rightarrow>
                (case streamingService C (notified w @ [(i, SchemaLoading)]) i (completion s) of
                   None \<Rightarrow>
                     (Inr s, w\<lparr>notified := notified w @ [(i, SchemaLoading), (i, completion s)],
                               visited := visited w @ tr\<rparr>)
                 | Some msg \<Rightarrow>
                    (case streamingService C
                            (notified w @ [(i, SchemaLoading), (i, completion s)]) i
                            (WorkflowError msg) of
                       None \<Rightarrow>
                         (Inr (failedState question msg),
                          w\<lparr>notified := notified w @ [(i, SchemaLoading), (i, completion s),
                                         (i, WorkflowError msg)],
                            visited := visited w @ tr\<rparr>)
                     | Some e \<Rightarrow>
                         (Inl e,
                          w\<lparr>notified := notified w @ [(i, SchemaLoading), (i, completion s),
                                         (i, WorkflowError msg)],
                            visited := visited w @ tr\<rparr>)))))"
proof -
  obtain s' tr' where g: "graph_run C question = (Inr s', tr')"
    and inv: "\<forall>k sid w. invoke (C\<lparr>streamingService := k\<rparr>) ((initialState question)\<lparr>sessionId := sid\<rparr>) w =
                   (Inr s', w\<lparr>visited := visited w @ tr'\<rparr>)"
    using graph_run_returns [of C question] by blast
  have "invoke (C\<lparr>streamingService := streamingService C\<rparr>) ((initialState question)\<lparr>sessionId := x\<rparr>) w' =
      (Inr s', w'\<lparr>visited := visited w' @ tr'\<rparr>)" for x w'
    using inv by blast
  then have inv': "invoke C ((initialState question)\<lparr>sessionId := x\<rparr>) w' =
      (Inr s, w'\<lparr>visited := visited w' @ tr\<rparr>)" for x w'
    using g assms by simp
  show ?thesis
    by (simp add: processQuery_def inv' flow_defs emit_def if_session_def completion_def
        split: option.splits)
qed

subsection \<open>Exceptions and the run (C1)\<close>

lemma stages_catch:
  assumes "sink_returns C (sessionId st)"
  shows "(databaseService_getSchemaInfo C = Inl msg \<longrightarrow>
        fst (loadSchema C st w) =
          Inr [SetError (Some (''Failed to load database schema: '' @ msg))]) \<and>
     (\<forall>sch. schema st = Some sch \<and> nlToSqlAgent C (originalQuestion st) sch = Inl msg \<longrightarrow>
        fst (convertNLToSQL C st w) =
          Inr [SetError (Some (''NL to SQL conversion failed: '' @ msg))]) \<and>
     (\<forall>sch. schema st = Some sch \<and> truthy_str (sqlQuery st) \<and>
        sqlValidationAgent_validateSQL C (str_or_empty (sqlQuery st)) (originalQuestion st) sch
          (str_or_empty (queryExplanation st)) = Inl msg \<longrightarrow>
        fst (validateSQL C st w) = Inr [SetError (Some (''SQL validation failed: '' @ msg))]) \<and>
     (\<forall>v. validationResult st = Some v \<and> truthy_str (sqlQuery st) \<and>
        sqlExecutionAgent C (str_or_empty (sqlQuery st)) (isValid v) (riskLevel v) = Inl msg \<longrightarrow>
        fst (executeSQL C st w) = Inr [SetError (Some (''SQL execution failed: '' @ msg))]) \<and>
     (\<forall>r. executionResult st = Some r \<and> truthy_str (sqlQuery st) \<and>
        resultInterpretationAgent C (originalQuestion st) (str_or_empty (sqlQuery st))
          (case data r of None \<Rightarrow> [] | Some rows \<Rightarrow> rows) = Inl msg \<longrightarrow>
        fst (interpretResults C st w) =
          Inr [SetError (Some (''Result interpretation failed: '' @ msg))]) \<and>
     (\<forall>sch. schema st = Some sch \<and> truthy_str (sqlQuery st) \<and>
        sqlValidationAgent_experimentWithQuery C (str_or_empty (sqlQuery st))
          (originalQuestion st) sch (str_or_empty (queryExplanation st)) = Inl msg \<longrightarrow>
        fst (experimentWithAlternatives C st w) = Inr [])"
  using assms
  by (simp add: loadSchema_def convertNLToSQL_def validateSQL_def executeSQL_def
      interpretResults_def experimentWithAlternatives_def flow_defs notify_returns)

text \<open>
  C1, as amended. No node throws: the graph always returns a state, and the last node it
  has entered is \<^verbatim>\<open>interpret_results\<close> or \<^verbatim>\<open>handle_error\<close>. An exception of the schema
  service, the translator, the validator, the execution agent or the interpreter is caught
  in its node, which returns \<open>error\<close> set to the node's message followed by the exception's
  message, and a set \<open>error\<close> leads from \<^verbatim>\<open>nl_to_sql\<close>, \<^verbatim>\<open>validate_sql\<close> and \<^verbatim>\<open>execute_sql\<close> to
  \<^verbatim>\<open>handle_error\<close>. An exception of the alternative generator is caught in the experiment
  node and dropped: the node returns \<^verbatim>\<open>{}\<close>.

  \<^verbatim>\<open>processQuery\<close> returns a state exactly when there is no session id, or the streaming
  service returns from the notification that schema loading starts and, should it throw
  from the notification of the graph's outcome, returns from the notification of that
  error. The state returned is the state the graph returned, or, when the notification of
  the outcome has thrown \<open>msg\<close>, the initial state with \<open>error\<close> set to
  \<^verbatim>\<open>Workflow execution failed:\<close> followed by \<open>msg\<close>, \<open>retryCount\<close> 0 and no \<open>finalResponse\<close>.
  What \<^verbatim>\<open>processQuery\<close> throws otherwise is what the streaming service has thrown.
\<close>

theorem run_throws_only_what_a_notification_throws:
  "(\<exists>s tr. graph_run C question = (Inr s, tr) \<and> tr \<noteq> [] \<and>
      (fst (last tr) = interpret_results \<or> fst (last tr) = handle_error) \<and>
      (\<forall>sid w.
         ((\<exists>x. fst (processQuery C question sid w) = Inr x) \<longleftrightarrow>
          (\<forall>i. sid = Some i \<and> i \<noteq> [] \<longrightarrow>
             streamingService C (notified w) i SchemaLoading = None \<and>
             (\<forall>msg. streamingService C (notified w @ [(i, SchemaLoading)]) i (completion s) =
                      Some msg \<longrightarrow>
                streamingService C (notified w @ [(i, SchemaLoading), (i, completion s)]) i
                  (WorkflowError msg) = None))) \<and>
         (\<forall>x. fst (processQuery C question sid w) = Inr x \<longrightarrow>
            entered w (snd (processQuery C question sid w)) = tr \<and>
            (x = s \<or>
             (\<exists>i msg. sid = Some i \<and> i \<noteq> [] \<and>
                streamingService C (notified w @ [(i, SchemaLoading)]) i (completion s) =
                  Some msg \<and>
                x = failedState question msg \<and>
                error x = Some (''Workflow execution failed: '' @ msg) \<and>
                retryCount x = Some 0 \<and> finalResponse x = None))) \<and>
         (\<forall>e. fst (processQuery C question sid w) = Inl e \<longrightarrow>
            (\<exists>i calls ev. sid = Some i \<and> i \<noteq> [] \<and> streamingService C calls i ev = Some e)))) \<and>
   (\<forall>st w msg. sink_returns C (sessionId st) \<longrightarrow>
      (databaseService_getSchemaInfo C = Inl msg \<longrightarrow>
         fst (loadSchema C st w) =
           Inr [SetError (Some (''Failed to load database schema: '' @ msg))]) \<and>
      (\<forall>sch. schema st = Some sch \<and> nlToSqlAgent C (originalQuestion st) sch = Inl msg \<longrightarrow>
         fst (convertNLToSQL C st w) =
           Inr [SetError (Some (''NL to SQL conversion failed: '' @ msg))]) \<and>
      (\<forall>sch. schema st = Some sch \<and> truthy_str (sqlQuery st) \<and>
         sqlValidationAgent_validateSQL C (str_or_empty (sqlQuery st)) (originalQuestion st)
           sch (str_or_empty (queryExplanation st)) = Inl msg \<longrightarrow>
         fst (validateSQL C st w) =
           Inr [SetError (Some (''SQL validation failed: '' @ msg))]) \<and>
      (\<forall>v. validationResult st = Some v \<and> truthy_str (sqlQuery st) \<and>
         sqlExecutionAgent C (str_or_empty (sqlQuery st)) (isValid v) (riskLevel v) = Inl msg \<longrightarrow>
         fst (executeSQL C st w) = Inr [SetError (Some (''SQL execution failed: '' @ msg))]) \<and>
      (\<forall>r. executionResult st = Some r \<and> truthy_str (sqlQuery st) \<and>
         resultInterpretationAgent C (originalQuestion st) (str_or_empty (sqlQuery st))
           (case data r of None \<Rightarrow> [] | Some rows \<Rightarrow> rows) = Inl msg \<longrightarrow>
         fst (interpretResults C st w) =
           Inr [SetError (Some (''Result interpretation failed: '' @ msg))]) \<and>
      (\<forall>sch. schema st = Some sch \<and> truthy_str (sqlQuery st) \<and>
         sqlValidationAgent_experimentWithQuery C (str_or_empty (sqlQuery st))
           (originalQuestion st) sch (str_or_empty (queryExplanation st)) = Inl msg \<longrightarrow>
         fst (experimentWithAlternatives C st w) = Inr [])) \<and>
   (\<forall>s. truthy_str (error s) \<longrightarrow>
      next_node nl_to_sql s = Some handle_error \<and>
      next_node validate_sql s = Some handle_error \<and>
      next_node execute_sql s = Some handle_error)"
proof -
  obtain s tr where g: "graph_run C question = (Inr s, tr)" and tr: "tr \<noteq> []"
    "fst (last tr) = interpret_results \<or> fst (last tr) = handle_error"
    using graph_run_returns [of C question] by blast
  note pq = processQuery_cases [OF g]
  have returns: "(\<exists>x. fst (processQuery C question sid w) = Inr x) \<longleftrightarrow>
          (\<forall>i. sid = Some i \<and> i \<noteq> [] \<longrightarrow>
             streamingService C (notified w) i SchemaLoading = None \<and>
             (\<forall>msg. streamingService C (notified w @ [(i, SchemaLoading)]) i (completion s) =
                      Some msg \<longrightarrow>
                streamingService C (notified w @ [(i, SchemaLoading), (i, completion s)]) i
                  (WorkflowError msg) = None))" for sid w
    by (auto simp: pq split: option.splits)
  have state: "entered w (snd (processQuery C question sid w)) = tr \<and>
            (x = s \<or>
             (\<exists>i msg. sid = Some i \<and> i \<noteq> [] \<and>
                streamingService C (notified w @ [(i, SchemaLoading)]) i (completion s) =
                  Some msg \<and>
                x = failedState question msg \<and>
                error x = Some (''Workflow execution failed: '' @ msg) \<and>
                retryCount x = Some 0 \<and> finalResponse x = None))"
    if "fst (processQuery C question sid w) = Inr x" for sid w x
    using that by (auto simp: pq entered_def initial_fields split: option.splits if_splits)
  have thrown: "\<exists>i calls ev. sid = Some i \<and> i \<noteq> [] \<and> streamingService C calls i ev = Some e"
    if "fst (processQuery C question sid w) = Inl e" for sid w e
    using that by (auto simp: pq split: option.splits if_splits)
  have run: "\<exists>s tr. graph_run C question = (Inr s, tr) \<and> tr \<noteq> [] \<and>
      (fst (last tr) = interpret_results \<or> fst (last tr) = handle_error) \<and>
      (\<forall>sid w.
         ((\<exists>x. fst (processQuery C question sid w) = Inr x) \<longleftrightarrow>
          (\<forall>i. sid = Some i \<and> i \<noteq> [] \<longrightarrow>
             streamingService C (notified w) i SchemaLoading = None \<and>
             (\<forall>msg. streamingService C (notified w @ [(i, SchemaLoading)]) i (completion s) =
                      Some msg \<longrightarrow>
                streamingService C (notified w @ [(i, SchemaLoading), (i, completion s)]) i
                  (WorkflowError msg) = None))) \<and>
         (\<forall>x. fst (processQuery C question sid w) = Inr x \<longrightarrow>
            entered w (snd (processQuery C question sid w)) = tr \<and>
            (x = s \<or>
             (\<exists>i msg. sid = Some i \<and> i \<noteq> [] \<and>
                streamingService C (notified w @ [(i, SchemaLoading)]) i (completion s) =
                  Some msg \<and>
                x = failedState question msg \<and>
                error x = Some (''Workflow execution failed: '' @ msg) \<and>
                retryCount x = Some 0 \<and> finalResponse x = None))) \<and>
         (\<forall>e. fst (processQuery C question sid w) = Inl e \<longrightarrow>
            (\<exists>i calls ev. sid = Some i \<and> i \<noteq> [] \<and> streamingService C calls i ev = Some e)))"
    apply (intro exI [of _ s] exI [of _ tr] conjI allI)
    subgoal by (rule g)
    subgoal by (rule tr)
    subgoal by (rule tr)
    subgoal for sid w by (rule returns)
    subgoal for sid w x using state [of sid w x] by blast
    subgoal for sid w e using thrown [of sid w e] by blast
    done
  have catches: "\<forall>st w msg. sink_returns C (sessionId st) \<longrightarrow>
      (databaseService_getSchemaInfo C = Inl msg \<longrightarrow>
         fst (loadSchema C st w) =
           Inr [SetError (Some (''Failed to load database schema: '' @ msg))]) \<and>
      (\<forall>sch. schema st = Some sch \<and> nlToSqlAgent C (originalQuestion st) sch = Inl msg \<longrightarrow>
         fst (convertNLToSQL C st w) =
           Inr [SetError (Some (''NL to SQL conversion failed: '' @ msg))]) \<and>
      (\<forall>sch. schema st = Some sch \<and> truthy_str (sqlQuery st) \<and>
         sqlValidationAgent_validateSQL C (str_or_empty (sqlQuery st)) (originalQuestion st)
           sch (str_or_empty (queryExplanation st)) = Inl msg \<longrightarrow>
         fst (validateSQL C st w) =
           Inr [SetError (Some (''SQL validation failed: '' @ msg))]) \<and>
      (\<forall>v. validationResult st = Some v \<and> truthy_str (sqlQuery st) \<and>
         sqlExecutionAgent C (str_or_empty (sqlQuery st)) (isValid v) (riskLevel v) = Inl msg \<longrightarrow>
         fst (executeSQL C st w) = Inr [SetError (Some (''SQL execution failed: '' @ msg))]) \<and>
      (\<forall>r. executionResult st = Some r \<and> truthy_str (sqlQuery st) \<and>
         resultInterpretationAgent C (originalQuestion st) (str_or_empty (sqlQuery st))
           (case data r of None \<Rightarrow> [] | Some rows \<Rightarrow> rows) = Inl msg \<longrightarrow>
         fst (interpretResults C st w) =
           Inr [SetError (Some (''Result interpretation failed: '' @ msg))]) \<and>
      (\<forall>sch. schema st = Some sch \<and> truthy_str (sqlQuery st) \<and>
         sqlValidationAgent_experimentWithQuery C (str_or_empty (sqlQuery st))
           (originalQuestion st) sch (str_or_empty (queryExplanation st)) = Inl msg \<longrightarrow>
         fst (experimentWithAlternatives C st w) = Inr [])"
    by (intro allI impI) (rule stages_catch)
  have routes: "\<forall>s. truthy_str (error s) \<longrightarrow>
      next_node nl_to_sql s = Some handle_error \<and>
      next_node validate_sql s = Some handle_error \<and>
      next_node execute_sql s = Some handle_error"
    by (intro allI impI) (rule error_routes_to_handle_error)
  show ?thesis
    by (rule conjI [OF run conjI [OF catches routes]])
qed

text \<open>The theorem at work, in runs with a session id. The execution agent throws, the
  streaming service returns: the run ends in \<^verbatim>\<open>handle_error\<close> with the error set. The
  streaming service throws from the notification that the workflow is completed: the run
  returns the state of the \<^verbatim>\<open>catch\<close> block. The service throws from every notification
  after the first: the run throws.\<close>

theorem run_with_failing_executor_or_notification:
  "(\<forall>calls i ev. streamingService lost_connection calls i ev = None) \<and>
   (\<exists>s. fst (processQuery lost_connection ''how many orders?'' (Some ''session-1'') world0) = Inr s \<and>
        error s = Some ''SQL execution failed: connection lost'' \<and> finalResponse s = None) \<and>
   map fst (visited (snd (processQuery lost_connection ''how many orders?''
                            (Some ''session-1'') world0))) =
     [load_schema, nl_to_sql, validate_sql, execute_sql, handle_error] \<and>
   fst (processQuery (scenario\<lparr>streamingService := sink_throwing_on_completed\<rparr>)
          ''how many orders?'' (Some ''session-1'') world0) =
     Inr (failedState ''how many orders?'' ''socket closed'') \<and>
   fst (processQuery (scenario\<lparr>streamingService := sink_throwing_after_start\<rparr>)
          ''how many orders?'' (Some ''session-1'') world0) = Inl ''socket closed''"
proof -
  let ?q = "''how many orders?''"
  have quiet: "\<forall>calls i ev. streamingService lost_connection calls i ev = None"
    by (simp add: lost_connection_def scenario_def quiet_def)
  from run_throws_only_what_a_notification_throws [THEN conjunct1, of lost_connection ?q]
  obtain s tr where st:
    "graph_run lost_connection ?q = (Inr s, tr) \<and> tr \<noteq> [] \<and>
      (fst (last tr) = interpret_results \<or> fst (last tr) = handle_error) \<and>
      (\<forall>sid w.
         ((\<exists>x. fst (processQuery lost_connection ?q sid w) = Inr x) \<longleftrightarrow>
          (\<forall>i. sid = Some i \<and> i \<noteq> [] \<longrightarrow>
             streamingService lost_connection (notified w) i SchemaLoading = None \<and>
             (\<forall>msg. streamingService lost_connection (notified w @ [(i, SchemaLoading)]) i
                      (completion s) = Some msg \<longrightarrow>
                streamingService lost_connection
                  (notified w @ [(i, SchemaLoading), (i, completion s)]) i
                  (WorkflowError msg) = None))) \<and>
         (\<forall>x. fst (processQuery lost_connection ?q sid w) = Inr x \<longrightarrow>
            entered w (snd (processQuery lost_connection ?q sid w)) = tr \<and>
            (x = s \<or>
             (\<exists>i msg. sid = Some i \<and> i \<noteq> [] \<and>
                streamingService lost_connection (notified w @ [(i, SchemaLoading)]) i
                  (completion s) = Some msg \<and>
                x = failedState ?q msg \<and>
                error x = Some (''Workflow execution failed: '' @ msg) \<and>
                retryCount x = Some 0 \<and> finalResponse x = None))) \<and>
         (\<forall>e. fst (processQuery lost_connection ?q sid w) = Inl e \<longrightarrow>
            (\<exists>i calls ev. sid = Some i \<and> i \<noteq> [] \<and>
               streamingService lost_connection calls i ev = Some e)))"
    by (elim exE) (rule that)
  note run = st [THEN conjunct2, THEN conjunct2, THEN conjunct2, rule_format,
      where sid = "Some ''session-1''" and w = world0]
  have returns: "\<exists>x. fst (processQuery lost_connection ?q (Some ''session-1'') world0) = Inr x"
    using run [THEN conjunct1] quiet by simp
  then obtain x where x: "fst (processQuery lost_connection ?q (Some ''session-1'') world0) = Inr x"
    by blast
  have "x = s"
    using run [THEN conjunct2, THEN conjunct1, rule_format, OF x] quiet by simp
  have "error x = Some ''SQL execution failed: connection lost'' \<and> finalResponse x = None \<and>
     map fst (visited (snd (processQuery lost_connection ?q (Some ''session-1'') world0))) =
       [load_schema, nl_to_sql, validate_sql, execute_sql, handle_error]"
    using x by (auto simp: scenario_defs run_defs)
  moreover have "fst (processQuery (scenario\<lparr>streamingService := sink_throwing_on_completed\<rparr>)
          ?q (Some ''session-1'') world0) = Inr (failedState ?q ''socket closed'')"
    by (simp add: scenario_defs run_defs)
  moreover have "fst (processQuery (scenario\<lparr>streamingService := sink_throwing_after_start\<rparr>)
          ?q (Some ''session-1'') world0) = Inl ''socket closed''"
    by (simp add: scenario_defs run_defs)
  ultimately show ?thesis
    using quiet x by blast
qed

text \<open>
  The claim as stated fails twice. A streaming service that throws makes
  \<^verbatim>\<open>processQuery\<close> throw: its first notification stands before the \<^verbatim>\<open>try\<close>. And an
  exception of the alternative generator never reaches \<open>error\<close>: the run goes on through
  \<^verbatim>\<open>execute_sql\<close> and \<^verbatim>\<open>interpret_results\<close> and ends with a \<open>finalResponse\<close>.
\<close>

theorem exception_escapes_run_or_is_dropped:
  "fst (processQuery (scenario\<lparr>streamingService := throwing_sink\<rparr>) ''how many orders?''
          (Some ''session-1'') world0) = Inl ''socket closed'' \<and>
   (\<exists>s. fst (processQuery overloaded_generator ''how many orders?'' None world0) = Inr s \<and>
        error s = None \<and> finalResponse s \<noteq> None \<and> alternativeQueries s = None) \<and>
   map fst (visited (snd (processQuery overloaded_generator ''how many orders?'' None world0))) =
     [load_schema, nl_to_sql, validate_sql, experiment_alternatives, execute_sql,
      interpret_results]"
  by (simp add: scenario_defs run_defs)

subsection \<open>The terminal state (C2)\<close>

text \<open>One half of the claim holds in every run: the state returned never has both a
  \<open>finalResponse\<close> and an \<open>error\<close>.\<close>

lemma never_both:
  assumes "fst (processQuery C question sid w) = Inr s"
  shows "\<not> (finalResponse s \<noteq> None \<and> truthy_str (error s))"
proof -
  let ?st0 = "initialState question"
  let ?I = "\<lambda>m s. (m \<noteq> END \<longrightarrow> finalResponse s = None) \<and>
      (m = interpret_results \<longrightarrow> \<not> truthy_str (error s)) \<and>
      (m = END \<longrightarrow> \<not> (finalResponse s \<noteq> None \<and> truthy_str (error s)))"
  have step: "?I n' (merge st u)"
    if I: "?I n st" and ne: "n \<noteq> END" and run: "run_node C n st w = (Inr u, w')"
      and nx: "next_node n (merge st u) = Some n'" for n st w u w' n'
  proof (cases "n = interpret_results")
    case True
    then have "n' = END" using next_node_cases [OF nx] by auto
    moreover from interpret_update [of C st w u w'] run True
    have "(\<exists>r. u = [SetFinalResponse r]) \<or> (\<exists>m. u = [SetError (Some m)])" by simp
    ultimately show ?thesis using I True by (auto simp: merge_def)
  next
    case False
    have "finalResponse (merge st u) = finalResponse st"
      using run False by (rule run_node_finalResponse)
    then show ?thesis
      using I ne interpret_entered_after_success [of n "merge st u"] nx by auto
  qed
  have inv: "\<forall>w0 s. fst (walk C load_schema ?st0 w0) = Inr s \<longrightarrow> ?I END s"
  proof (intro allI)
    fix w0 s
    have "(\<forall>e \<in> set (entered w0 (snd (walk C load_schema ?st0 w0))). ?I (fst e) (snd e)) \<and>
       (\<forall>s. fst (walk C load_schema ?st0 w0) = Inr s \<longrightarrow> ?I END s)"
    proof (rule walk_inv [where I = ?I])
      show "?I load_schema ?st0" by (simp add: initial_fields)
    qed (rule step; assumption)
    then show "fst (walk C load_schema ?st0 w0) = Inr s \<longrightarrow> ?I END s" by blast
  qed
  from processQuery_outcome [of C question sid w] assms
  have "(\<exists>w0. fst (walk C load_schema ?st0 w0) = Inr s) \<or> (\<exists>msg. s = failedState question msg)"
    by (auto simp: invoke_initial)
  then show ?thesis
  proof
    assume "\<exists>w0. fst (walk C load_schema ?st0 w0) = Inr s"
    then obtain w0 where "fst (walk C load_schema ?st0 w0) = Inr s" by blast
    with inv have "?I END s" by blast
    then show ?thesis by simp
  next
    assume "\<exists>msg. s = failedState question msg"
    then show ?thesis by (auto simp: initial_fields)
  qed
qed

text \<open>The run of a query the validator rejects, node by node, and its result.\<close>

lemma rejecting_run:
  "map (\<lambda>e. (fst e, validationResult (snd e), sqlQuery (snd e)))
     (visited (snd (processQuery rejecting ''how many orders?'' None world0))) =
     [(load_schema, None, None), (nl_to_sql, None, None),
      (validate_sql, None, Some ''SELECT COUNT(*) FROM orders''),
      (experiment_alternatives, Some reject, Some ''SELECT COUNT(*) FROM orders''),
      (execute_sql, Some reject, Some ''SELECT COUNT(1) FROM orders''),
      (handle_error, Some reject, Some ''SELECT COUNT(1) FROM orders'')]"
  by (simp add: rejecting_def reject_def scenario_def run_defs three_alternatives_def
      bestAlternative_def agent_of_def agent_refusals failure_def)

lemma rejecting_result:
  "\<exists>s. fst (processQuery rejecting ''how many orders?'' None world0) = Inr s \<and>
     error s = None \<and> finalResponse s = None \<and> retryCount s = Some 1 \<and>
     executionResult s = Some (failure ''Query must be validated before execution'' 1)"
  by (simp add: rejecting_def reject_def scenario_def run_defs three_alternatives_def
      bestAlternative_def agent_of_def agent_refusals failure_def)

text \<open>
  C2. The claim has every terminal state hold exactly one of \<open>finalResponse\<close> and a
  non-empty \<open>error\<close>. When the execution agent refuses the query, the state returned has
  neither: the refusal is in \<open>executionResult\<close> only, \<^verbatim>\<open>shouldInterpretOrError\<close> leads to
  \<^verbatim>\<open>handle_error\<close>, and \<^verbatim>\<open>handleError\<close> returns the \<open>error\<close> it found, which is absent.
\<close>

theorem refused_run_has_neither_response_nor_error:
  "\<exists>s. fst (processQuery rejecting ''how many orders?'' None world0) = Inr s \<and>
       finalResponse s = None \<and> error s = None \<and> retryCount s = Some 1 \<and>
       executionResult s = Some (failure ''Query must be validated before execution'' 1)"
  using rejecting_result by blast

theorem refused_run_not_exactly_one:
  "\<not> (\<forall>s. fst (processQuery rejecting ''how many orders?'' None world0) = Inr s \<longrightarrow>
          (finalResponse s \<noteq> None) \<noteq> truthy_str (error s))"
  using refused_run_has_neither_response_nor_error by (auto simp: truthy_str_def)

subsection \<open>The route after validation (C3)\<close>

text \<open>What \<^verbatim>\<open>shouldExecuteOrExperiment\<close> computes, case by case; and the boundary.\<close>

lemma shouldExecuteOrExperiment_cases:
  "shouldExecuteOrExperiment state =
     (if truthy_str (error state) \<or> validationResult state = None then ''error''
      else if \<exists>v. validationResult state = Some v \<and> (\<not> isValid v \<or> \<not> shouldExecute v)
        then ''experiment''
      else if \<exists>c. sqlConfidence state = Some c \<and> c \<noteq> 0 \<and> c < 70 then ''experiment''
      else ''execute'')"
  by (auto simp: shouldExecuteOrExperiment_def split: option.splits)

lemma confidence_boundary:
  "shouldExecuteOrExperiment (state_valid_conf 69) = ''experiment'' \<and>
   shouldExecuteOrExperiment (state_valid_conf 70) = ''execute''"
  by (simp add: shouldExecuteOrExperiment_def state_valid_conf_def initialState_def
      truthy_str_def approve_def)

text \<open>
  C3. The claim has confidence 0 route to \<open>experiment\<close>. The code tests
  \<^verbatim>\<open>state.sqlConfidence && state.sqlConfidence < 70\<close>, and 0 is falsy: with a valid query,
  execution recommended and confidence 0, the route is \<open>execute\<close>.
\<close>

theorem confidence_zero_routes_to_execute:
  "shouldExecuteOrExperiment (state_valid_conf 0) = ''execute'' \<and>
   next_node validate_sql (state_valid_conf 0) = Some execute_sql"
  by (simp add: next_node_def shouldExecuteOrExperiment_def state_valid_conf_def
      initialState_def truthy_str_def approve_def)

theorem confidence_zero_not_experiment:
  "next_node validate_sql (state_valid_conf 0) \<noteq> Some experiment_alternatives"
  using confidence_zero_routes_to_execute by simp

subsection \<open>The streaming service and the outcome (C4)\<close>

text \<open>
  C4, as amended. The nodes are never handed the session id, so only \<^verbatim>\<open>processQuery\<close>
  itself notifies the streaming service: that schema loading starts, before the graph
  runs, and the outcome, after it. A run with whatever session id and a streaming service
  that returns from every call returns the state, and enters the nodes, of the run without
  session id, in which the service is not called. The nodes entered are the same under
  every streaming service, provided the graph is reached at all. An exception of the
  service is not caught and discarded: thrown from the first notification, which stands
  before the \<^verbatim>\<open>try\<close>, it is thrown by \<^verbatim>\<open>processQuery\<close> and no node is entered; thrown from
  the notification of the outcome, it is caught by the \<^verbatim>\<open>catch\<close> of \<^verbatim>\<open>processQuery\<close>, which
  notifies the error and returns the initial state with the exception's message as
  \<open>error\<close> in place of the graph's state, or throws what this last notification throws.
\<close>

theorem service_changes_the_outcome_only_by_throwing:
  "\<exists>s tr.
     (\<forall>w'. processQuery C question None w' = (Inr s, w'\<lparr>visited := visited w' @ tr\<rparr>)) \<and>
     (\<forall>k sid w.
        ((\<forall>calls i ev. k calls i ev = None) \<longrightarrow>
           fst (processQuery (C\<lparr>streamingService := k\<rparr>) question sid w) = Inr s \<and>
           entered w (snd (processQuery (C\<lparr>streamingService := k\<rparr>) question sid w)) = tr) \<and>
        (entered w (snd (processQuery (C\<lparr>streamingService := k\<rparr>) question sid w)) = tr \<or>
         entered w (snd (processQuery (C\<lparr>streamingService := k\<rparr>) question sid w)) = [] \<and>
         (\<exists>i e. sid = Some i \<and> k (notified w) i SchemaLoading = Some e \<and>
            fst (processQuery (C\<lparr>streamingService := k\<rparr>) question sid w) = Inl e)) \<and>
        (\<forall>i. sid = Some i \<and> i \<noteq> [] \<longrightarrow>
           fst (processQuery (C\<lparr>streamingService := k\<rparr>) question sid w) =
             (case k (notified w) i SchemaLoading of
                Some e \<Rightarrow> Inl e
              | None \<Rightarrow>
                 (case k (notified w @ [(i, SchemaLoading)]) i (completion s) of
                    None \<Rightarrow> Inr s
                  | Some msg \<Rightarrow>
                     (case k (notified w @ [(i, SchemaLoading), (i, completion s)]) i
                             (WorkflowError msg) of
                        None \<Rightarrow> Inr (failedState question msg)
                      | Some e \<Rightarrow> Inl e)))))"
proof -
  obtain s tr where g: "graph_run C question = (Inr s, tr)"
    using graph_run_returns [of C question] by blast
  have gk: "graph_run (C\<lparr>streamingService := k\<rparr>) question = (Inr s, tr)" for k
    using g by (simp add: graph_run_service)
  note pq = processQuery_cases [OF g]
  note pqk = processQuery_cases [OF gk]
  have sessionless: "\<forall>w'. processQuery C question None w' = (Inr s, w'\<lparr>visited := visited w' @ tr\<rparr>)"
    by (simp add: pq)
  have returning: "fst (processQuery (C\<lparr>streamingService := k\<rparr>) question sid w) = Inr s \<and>
      entered w (snd (processQuery (C\<lparr>streamingService := k\<rparr>) question sid w)) = tr"
    if "\<forall>calls i ev. k calls i ev = None" for k sid w
    using that by (simp add: pqk entered_def split: option.splits)
  have routing: "entered w (snd (processQuery (C\<lparr>streamingService := k\<rparr>) question sid w)) = tr \<or>
      entered w (snd (processQuery (C\<lparr>streamingService := k\<rparr>) question sid w)) = [] \<and>
      (\<exists>i e. sid = Some i \<and> k (notified w) i SchemaLoading = Some e \<and>
         fst (processQuery (C\<lparr>streamingService := k\<rparr>) question sid w) = Inl e)" for k sid w
    by (auto simp: pqk entered_def split: option.splits)
  have cases: "fst (processQuery (C\<lparr>streamingService := k\<rparr>) question sid w) =
             (case k (notified w) i SchemaLoading of
                Some e \<Rightarrow> Inl e
              | None \<Rightarrow>
                 (case k (notified w @ [(i, SchemaLoading)]) i (completion s) of
                    None \<Rightarrow> Inr s
                  | Some msg \<Rightarrow>
                     (case k (notified w @ [(i, SchemaLoading), (i, completion s)]) i
                             (WorkflowError msg) of
                        None \<Rightarrow> Inr (failedState question msg)
                      | Some e \<Rightarrow> Inl e)))"
    if "sid = Some i \<and> i \<noteq> []" for k sid w i
    using that by (simp add: pqk split: option.splits)
  show ?thesis
    apply (intro exI [of _ s] exI [of _ tr] conjI allI)
    subgoal by (rule sessionless [rule_format])
    subgoal for k sid w using returning [of k sid w] by blast
    subgoal for k sid w by (rule routing)
    subgoal for k sid w i using cases [of sid i k w] by blast
    done
qed

text \<open>The theorem in the end-to-end scenario, whose streaming service returns: the run
  with a session id makes two notifications and returns what the run without returns.\<close>

theorem returning_service_in_scenario:
  "fst (processQuery scenario ''how many orders?'' (Some ''session-1'') world0) =
     fst (processQuery scenario ''how many orders?'' None world0) \<and>
   visited (snd (processQuery scenario ''how many orders?'' (Some ''session-1'') world0)) =
     visited (snd (processQuery scenario ''how many orders?'' None world0)) \<and>
   map fst (visited (snd (processQuery scenario ''how many orders?'' None world0))) =
     [load_schema, nl_to_sql, validate_sql, execute_sql, interpret_results] \<and>
   length (notified (snd (processQuery scenario ''how many orders?'' (Some ''session-1'') world0))) = 2 \<and>
   notified (snd (processQuery scenario ''how many orders?'' None world0)) = []"
proof -
  let ?q = "''how many orders?''"
  have quiet: "\<forall>calls i ev. quiet calls i ev = None"
    by (simp add: quiet_def)
  have same: "scenario\<lparr>streamingService := quiet\<rparr> = scenario"
    by (simp add: scenario_def)
  have v: "visited world0 = []"
    by (simp add: world0_def)
  from service_changes_the_outcome_only_by_throwing [of scenario ?q]
  obtain s tr where st:
    "(\<forall>w'. processQuery scenario ?q None w' = (Inr s, w'\<lparr>visited := visited w' @ tr\<rparr>)) \<and>
     (\<forall>k sid w.
        ((\<forall>calls i ev. k calls i ev = None) \<longrightarrow>
           fst (processQuery (scenario\<lparr>streamingService := k\<rparr>) ?q sid w) = Inr s \<and>
           entered w (snd (processQuery (scenario\<lparr>streamingService := k\<rparr>) ?q sid w)) = tr) \<and>
        (entered w (snd (processQuery (scenario\<lparr>streamingService := k\<rparr>) ?q sid w)) = tr \<or>
         entered w (snd (processQuery (scenario\<lparr>streamingService := k\<rparr>) ?q sid w)) = [] \<and>
         (\<exists>i e. sid = Some i \<and> k (notified w) i SchemaLoading = Some e \<and>
            fst (processQuery (scenario\<lparr>streamingService := k\<rparr>) ?q sid w) = Inl e)) \<and>
        (\<forall>i. sid = Some i \<and> i \<noteq> [] \<longrightarrow>
           fst (processQuery (scenario\<lparr>streamingService := k\<rparr>) ?q sid w) =
             (case k (notified w) i SchemaLoading of
                Some e \<Rightarrow> Inl e
              | None \<Rightarrow>
                 (case k (notified w @ [(i, SchemaLoading)]) i (completion s) of
                    None \<Rightarrow> Inr s
                  | Some msg \<Rightarrow>
                     (case k (notified w @ [(i, SchemaLoading), (i, completion s)]) i
                             (WorkflowError msg) of
                        None \<Rightarrow> Inr (failedState ?q msg)
                      | Some e \<Rightarrow> Inl e)))))"
    by (elim exE) (rule that)
  note without = st [THEN conjunct1, rule_format, of world0]
  note returning = st [THEN conjunct2, rule_format, THEN conjunct1, rule_format,
      where k = quiet and sid = "Some ''session-1''" and w = world0]
  have "fst (processQuery scenario ?q (Some ''session-1'') world0) = Inr s \<and>
     entered world0 (snd (processQuery scenario ?q (Some ''session-1'') world0)) = tr"
    using returning quiet by (simp add: same)
  then have "fst (processQuery scenario ?q (Some ''session-1'') world0) =
       fst (processQuery scenario ?q None world0) \<and>
     visited (snd (processQuery scenario ?q (Some ''session-1'') world0)) =
       visited (snd (processQuery scenario ?q None world0))"
    using without v by (simp add: entered_def)
  moreover have "map fst (visited (snd (processQuery scenario ?q None world0))) =
       [load_schema, nl_to_sql, validate_sql, execute_sql, interpret_results] \<and>
     notified (snd (processQuery scenario ?q None world0)) = []"
    by (simp add: scenario_defs run_defs)
  moreover have "length (notified (snd (processQuery scenario ?q (Some ''session-1'') world0))) = 2"
    by (simp add: scenario_defs run_defs)
  ultimately show ?thesis by simp
qed

text \<open>
  The claim as stated fails: nothing catches an exception of the streaming service
  and discards it. With a service that throws from the notification that the workflow is
  completed, the run that would have returned a \<open>finalResponse\<close> returns the state of the
  \<^verbatim>\<open>catch\<close> block, with an \<open>error\<close> and no \<open>finalResponse\<close>; with a service that always
  throws, \<^verbatim>\<open>processQuery\<close> throws.
\<close>

theorem service_error_changes_the_outcome:
  "(\<exists>s. fst (processQuery scenario ''how many orders?'' (Some ''session-1'') world0) = Inr s \<and>
        error s = None \<and> finalResponse s \<noteq> None) \<and>
   (\<exists>s. fst (processQuery (scenario\<lparr>streamingService := sink_throwing_on_completed\<rparr>)
                ''how many orders?'' (Some ''session-1'') world0) = Inr s \<and>
        error s = Some ''Workflow execution failed: socket closed'' \<and> finalResponse s = None) \<and>
   map fst (visited (snd (processQuery (scenario\<lparr>streamingService := sink_throwing_on_completed\<rparr>)
                            ''how many orders?'' (Some ''session-1'') world0))) =
     [load_schema, nl_to_sql, validate_sql, execute_sql, interpret_results] \<and>
   fst (processQuery (scenario\<lparr>streamingService := throwing_sink\<rparr>) ''how many orders?''
          (Some ''session-1'') world0) = Inl ''socket closed'' \<and>
   visited (snd (processQuery (scenario\<lparr>streamingService := throwing_sink\<rparr>) ''how many orders?''
          (Some ''session-1'') world0)) = []"
  by (simp add: scenario_defs run_defs)

subsection \<open>What Interpret checks (C5)\<close>

text \<open>
  C5, as amended. \<^verbatim>\<open>interpretResults\<close> checks that \<open>executionResult\<close> and \<open>sqlQuery\<close> are
  present, and returns an error when one is missing. It does not look at
  \<open>executionResult.success\<close>: whenever both are present it calls the interpreter, and
  returns its answer as \<open>finalResponse\<close>, or an error when the interpreter throws. That
  \<open>success\<close> holds is the business of the routing: the only edge into
  \<^verbatim>\<open>interpret_results\<close> comes from \<^verbatim>\<open>execute_sql\<close> and is taken only when \<open>error\<close> is not set
  and \<open>executionResult.success\<close> is true.
\<close>

theorem interpret_checks_presence_only:
  assumes "sink_returns C (sessionId state)"
  shows "(executionResult state = None \<or> \<not> truthy_str (sqlQuery state) \<longrightarrow>
        fst (interpretResults C state w) =
          Inr [SetError (Some ''Execution result or SQL query missing for interpretation'')]) \<and>
     (\<forall>r resp. executionResult state = Some r \<and> truthy_str (sqlQuery state) \<and>
        resultInterpretationAgent C (originalQuestion state) (str_or_empty (sqlQuery state))
          (case data r of None \<Rightarrow> [] | Some rows \<Rightarrow> rows) = Inr resp \<longrightarrow>
        fst (interpretResults C state w) = Inr [SetFinalResponse resp]) \<and>
     (\<forall>r msg. executionResult state = Some r \<and> truthy_str (sqlQuery state) \<and>
        resultInterpretationAgent C (originalQuestion state) (str_or_empty (sqlQuery state))
          (case data r of None \<Rightarrow> [] | Some rows \<Rightarrow> rows) = Inl msg \<longrightarrow>
        fst (interpretResults C state w) =
          Inr [SetError (Some (''Result interpretation failed: '' @ msg))]) \<and>
     (\<forall>n s. next_node n s = Some interpret_results \<longrightarrow>
        n = execute_sql \<and> \<not> truthy_str (error s) \<and>
        (\<exists>r. executionResult s = Some r \<and> success r))"
  using assms interpret_entered_after_success
  by (auto simp: interpretResults_def flow_defs notify_returns split: option.splits)

text \<open>The theorem at a state without a query, whose execution has failed.\<close>

theorem interpret_without_query:
  "fst (interpretResults scenario (failed_execution_state\<lparr>sqlQuery := None\<rparr>) world0) =
     Inr [SetError (Some ''Execution result or SQL query missing for interpretation'')] \<and>
   next_node execute_sql failed_execution_state = Some handle_error"
  using interpret_checks_presence_only
    [of scenario "failed_execution_state\<lparr>sqlQuery := None\<rparr>" world0]
  by (simp add: sink_returns_def failed_execution_state_def state_valid_conf_def
      initialState_def js_defs failure_def route_defs)

text \<open>
  The claim as stated fails: on a state whose \<open>executionResult\<close> has \<open>success = False\<close>,
  \<^verbatim>\<open>interpretResults\<close> returns a \<open>finalResponse\<close>.
\<close>

theorem interpret_runs_on_failed_execution:
  "(\<exists>r. executionResult failed_execution_state = Some r \<and> \<not> success r) \<and>
   fst (interpretResults scenario failed_execution_state world0) =
     Inr [SetFinalResponse
            \<lparr>summary = ''There are 5 orders.'', table_should_show = False,
             table_columns = [], table_data = []\<rparr>]"
  by (simp add: failed_execution_state_def state_valid_conf_def initialState_def failure_def
      scenario_def interpretResults_def flow_defs sink_defs js_defs)

subsection \<open>What Experiment replaces (C6)\<close>

lemma best_fold:
  "foldl (\<lambda>best current. if confidence current > confidence best then current else best) b xs
     \<in> insert b (set xs) \<and>
   (\<forall>a \<in> insert b (set xs).
      confidence a \<le> confidence
        (foldl (\<lambda>best current. if confidence current > confidence best then current else best)
           b xs))"
proof (induction xs arbitrary: b)
  case Nil
  show ?case by simp
next
  case (Cons x xs)
  show ?case
    using Cons.IH [of b] Cons.IH [of x] by (auto intro: order_trans less_imp_le)
qed

lemma bestAlternative_max:
  "alts \<noteq> [] \<Longrightarrow>
   bestAlternative alts \<in> set alts \<and>
   (\<forall>a \<in> set alts. confidence a \<le> confidence (bestAlternative alts))"
  using best_fold [of "hd alts" "tl alts"]
  by (cases alts) (simp_all add: bestAlternative_def)

lemma experiment_result:
  assumes "sink_returns C (sessionId state)"
    and "schema state = Some sch" and "truthy_str (sqlQuery state)"
    and "sqlValidationAgent_experimentWithQuery C (str_or_empty (sqlQuery state))
           (originalQuestion state) sch (str_or_empty (queryExplanation state)) = Inr alts"
  shows "fst (experimentWithAlternatives C state w) =
     Inr (if alts \<noteq> [] \<and> confidence (bestAlternative alts) > num_or_zero (sqlConfidence state)
          then [SetAlternativeQueries alts, SetSqlQuery (query (bestAlternative alts)),
                SetQueryExplanation (explanation (bestAlternative alts)),
                SetSqlConfidence (confidence (bestAlternative alts))]
          else [SetAlternativeQueries alts])"
  using assms by (simp add: experimentWithAlternatives_def flow_defs notify_returns)

text \<open>
  C6. Experiment changes query, explanation and confidence only in one case: the
  alternative generator has answered with a list that is not empty, and the confidence of
  the best alternative is strictly greater than the current confidence, where an absent
  confidence counts as 0; then the three fields are those of the best alternative. When
  the generator answers with the list \<open>alts\<close> and no call to the streaming service throws,
  as in every run of the graph, Experiment returns, records the list, and replaces the
  three fields in this case and leaves them as they were in every other. The best
  alternative is an element of the list whose confidence no element exceeds.
\<close>

theorem experiment_replaces_only_by_strictly_better:
  "(\<forall>u. fst (experimentWithAlternatives C state w) = Inr u \<longrightarrow>
      sqlQuery (merge state u) = sqlQuery state \<and>
      queryExplanation (merge state u) = queryExplanation state \<and>
      sqlConfidence (merge state u) = sqlConfidence state \<or>
      (\<exists>sch alts.
         schema state = Some sch \<and>
         sqlValidationAgent_experimentWithQuery C (str_or_empty (sqlQuery state))
           (originalQuestion state) sch (str_or_empty (queryExplanation state)) = Inr alts \<and>
         alts \<noteq> [] \<and>
         confidence (bestAlternative alts) >
           (case sqlConfidence state of None \<Rightarrow> 0 | Some current \<Rightarrow> current) \<and>
         sqlQuery (merge state u) = Some (query (bestAlternative alts)) \<and>
         queryExplanation (merge state u) = Some (explanation (bestAlternative alts)) \<and>
         sqlConfidence (merge state u) = Some (confidence (bestAlternative alts)))) \<and>
   (\<forall>sch alts.
      sink_returns C (sessionId state) \<and> schema state = Some sch \<and> truthy_str (sqlQuery state) \<and>
      sqlValidationAgent_experimentWithQuery C (str_or_empty (sqlQuery state))
        (originalQuestion state) sch (str_or_empty (queryExplanation state)) = Inr alts \<longrightarrow>
      (\<exists>u. fst (experimentWithAlternatives C state w) = Inr u \<and>
         alternativeQueries (merge state u) = Some alts \<and>
         (if alts \<noteq> [] \<and>
             confidence (bestAlternative alts) >
               (case sqlConfidence state of None \<Rightarrow> 0 | Some current \<Rightarrow> current)
          then sqlQuery (merge state u) = Some (query (bestAlternative alts)) \<and>
               queryExplanation (merge state u) = Some (explanation (bestAlternative alts)) \<and>
               sqlConfidence (merge state u) = Some (confidence (bestAlternative alts))
          else sqlQuery (merge state u) = sqlQuery state \<and>
               queryExplanation (merge state u) = queryExplanation state \<and>
               sqlConfidence (merge state u) = sqlConfidence state))) \<and>
   (\<forall>alts. alts \<noteq> [] \<longrightarrow>
      bestAlternative alts \<in> set alts \<and>
      (\<forall>a \<in> set alts. confidence a \<le> confidence (bestAlternative alts)))"
proof -
  have only: "sqlQuery (merge state u) = sqlQuery state \<and>
      queryExplanation (merge state u) = queryExplanation state \<and>
      sqlConfidence (merge state u) = sqlConfidence state \<or>
      (\<exists>sch alts.
         schema state = Some sch \<and>
         sqlValidationAgent_experimentWithQuery C (str_or_empty (sqlQuery state))
           (originalQuestion state) sch (str_or_empty (queryExplanation state)) = Inr alts \<and>
         alts \<noteq> [] \<and>
         confidence (bestAlternative alts) >
           (case sqlConfidence state of None \<Rightarrow> 0 | Some current \<Rightarrow> current) \<and>
         sqlQuery (merge state u) = Some (query (bestAlternative alts)) \<and>
         queryExplanation (merge state u) = Some (explanation (bestAlternative alts)) \<and>
         sqlConfidence (merge state u) = Some (confidence (bestAlternative alts)))"
    if "fst (experimentWithAlternatives C state w) = Inr u" for u
    using that
    by (auto simp: experimentWithAlternatives_def flow_defs sink_defs merge_def num_or_zero_def
        split: option.splits sum.splits prod.splits if_splits)
  have exact: "\<exists>u. fst (experimentWithAlternatives C state w) = Inr u \<and>
         alternativeQueries (merge state u) = Some alts \<and>
         (if alts \<noteq> [] \<and>
             confidence (bestAlternative alts) >
               (case sqlConfidence state of None \<Rightarrow> 0 | Some current \<Rightarrow> current)
          then sqlQuery (merge state u) = Some (query (bestAlternative alts)) \<and>
               queryExplanation (merge state u) = Some (explanation (bestAlternative alts)) \<and>
               sqlConfidence (merge state u) = Some (confidence (bestAlternative alts))
          else sqlQuery (merge state u) = sqlQuery state \<and>
               queryExplanation (merge state u) = queryExplanation state \<and>
               sqlConfidence (merge state u) = sqlConfidence state)"
    if "sink_returns C (sessionId state)" "schema state = Some sch" "truthy_str (sqlQuery state)"
      "sqlValidationAgent_experimentWithQuery C (str_or_empty (sqlQuery state))
        (originalQuestion state) sch (str_or_empty (queryExplanation state)) = Inr alts"
    for sch alts
    using experiment_result [OF that, of w] by (simp add: merge_def num_or_zero_def)
  show ?thesis
    apply (intro conjI allI)
    subgoal for u using only [of u] by blast
    subgoal for sch alts using exact [of sch alts] by blast
    subgoal for alts using bestAlternative_max [of alts] by blast
    done
qed

text \<open>The example of the claim: alternatives of confidence 40, 85 and 60 against a
  current confidence of 50 replace the query. Against a current confidence of 90, and
  against one of 85, which the best alternative equals and does not exceed, the query,
  the explanation and the confidence stay.\<close>

theorem experiment_40_85_60_against_50_and_90:
  "(\<exists>u. fst (experimentWithAlternatives
              (scenario\<lparr>sqlValidationAgent_experimentWithQuery :=
                          (\<lambda>sql question sch expl. Inr three_alternatives)\<rparr>)
              (state_valid_conf 50) world0) = Inr u \<and>
       sqlQuery (merge (state_valid_conf 50) u) = Some ''SELECT COUNT(1) FROM orders'' \<and>
       queryExplanation (merge (state_valid_conf 50) u) = Some ''counts a constant'' \<and>
       sqlConfidence (merge (state_valid_conf 50) u) = Some 85) \<and>
   (\<exists>u. fst (experimentWithAlternatives
              (scenario\<lparr>sqlValidationAgent_experimentWithQuery :=
                          (\<lambda>sql question sch expl. Inr three_alternatives)\<rparr>)
              (state_valid_conf 90) world0) = Inr u \<and>
       sqlQuery (merge (state_valid_conf 90) u) = Some ''SELECT COUNT(*) FROM orders'' \<and>
       queryExplanation (merge (state_valid_conf 90) u) = Some ''counts the rows'' \<and>
       sqlConfidence (merge (state_valid_conf 90) u) = Some 90) \<and>
   (\<exists>u. fst (experimentWithAlternatives
              (scenario\<lparr>sqlValidationAgent_experimentWithQuery :=
                          (\<lambda>sql question sch expl. Inr three_alternatives)\<rparr>)
              (state_valid_conf 85) world0) = Inr u \<and>
       sqlQuery (merge (state_valid_conf 85) u) = Some ''SELECT COUNT(*) FROM orders'' \<and>
       queryExplanation (merge (state_valid_conf 85) u) = Some ''counts the rows'' \<and>
       sqlConfidence (merge (state_valid_conf 85) u) = Some 85)"
  using experiment_replaces_only_by_strictly_better
    [of "scenario\<lparr>sqlValidationAgent_experimentWithQuery :=
                    (\<lambda>sql question sch expl. Inr three_alternatives)\<rparr>"
        "state_valid_conf 50" world0]
    experiment_replaces_only_by_strictly_better
    [of "scenario\<lparr>sqlValidationAgent_experimentWithQuery :=
                    (\<lambda>sql question sch expl. Inr three_alternatives)\<rparr>"
        "state_valid_conf 90" world0]
    experiment_replaces_only_by_strictly_better
    [of "scenario\<lparr>sqlValidationAgent_experimentWithQuery :=
                    (\<lambda>sql question sch expl. Inr three_alternatives)\<rparr>"
        "state_valid_conf 85" world0]
  by (simp add: sink_returns_def scenario_def state_valid_conf_def initialState_def js_defs
      three_alternatives_def bestAlternative_def experimentWithAlternatives_def flow_defs
      sink_defs merge_def quiet_def)

subsection \<open>Experiment is never fatal (C7)\<close>

text \<open>
  C7. When the schema or the query is missing, or the alternative generator throws (and no
  call to the streaming service throws), Experiment returns \<^verbatim>\<open>{}\<close>: merging it leaves the
  state as it was, with its query, explanation, confidence and \<open>error\<close>. The edge out of
  Experiment leads to Execute whatever the state, and the walk goes on from Execute with
  the unchanged state.
\<close>

theorem experiment_never_fatal:
  assumes "sink_returns C (sessionId state)"
    and "schema state = None \<or> \<not> truthy_str (sqlQuery state) \<or>
      (\<exists>sch msg. schema state = Some sch \<and>
         sqlValidationAgent_experimentWithQuery C (str_or_empty (sqlQuery state))
           (originalQuestion state) sch (str_or_empty (queryExplanation state)) = Inl msg)"
  shows "fst (experimentWithAlternatives C state w) = Inr [] \<and>
     merge state [] = state \<and>
     (\<forall>s. next_node experiment_alternatives s = Some execute_sql) \<and>
     (\<exists>w'. walk C experiment_alternatives state w = walk C execute_sql state w')"
proof -
  have r: "fst (experimentWithAlternatives C state w') = Inr []" for w'
    using assms
    by (auto simp: experimentWithAlternatives_def flow_defs notify_returns
        split: option.splits)
  have n: "next_node experiment_alternatives s = Some execute_sql" for s
    by (simp add: next_node_def)
  obtain w1 where "experimentWithAlternatives C state
      (w\<lparr>visited := visited w @ [(experiment_alternatives, state)]\<rparr>) = (Inr [], w1)"
    using r [of "w\<lparr>visited := visited w @ [(experiment_alternatives, state)]\<rparr>"]
    by (cases "experimentWithAlternatives C state
      (w\<lparr>visited := visited w @ [(experiment_alternatives, state)]\<rparr>)") simp
  then have "walk C experiment_alternatives state w = walk C execute_sql state w1"
    by (simp add: walk_step run_node_def n merge_empty)
  then show ?thesis
    using r n by (auto simp: merge_empty)
qed

text \<open>The theorem with a generator that throws, and with a state without schema.\<close>

theorem failed_generator_in_scenario:
  "fst (experimentWithAlternatives overloaded_generator (state_valid_conf 50) world0) = Inr [] \<and>
   merge (state_valid_conf 50) [] = state_valid_conf 50 \<and>
   next_node experiment_alternatives (state_valid_conf 50) = Some execute_sql \<and>
   fst (experimentWithAlternatives scenario ((state_valid_conf 50)\<lparr>schema := None\<rparr>) world0) = Inr []"
  using experiment_never_fatal [of overloaded_generator "state_valid_conf 50" world0]
    experiment_never_fatal [of scenario "(state_valid_conf 50)\<lparr>schema := None\<rparr>" world0]
  by (simp add: sink_returns_def overloaded_generator_def scenario_def state_valid_conf_def
      initialState_def js_defs)

subsection \<open>Refusals of the execution agent in the terminal state (C8)\<close>

text \<open>
  C8. The agent refuses as the claim says (lemma \<open>agent_refusals\<close>), but the claim also has
  the refusal reported as \<open>error\<close> in the terminal state. In the run of a query that the
  validator approves with risk HIGH, the agent refuses, the walk ends in
  \<^verbatim>\<open>handle_error\<close>, and the state returned has no \<open>error\<close>: the reason is in
  \<open>executionResult\<close> only.
\<close>

theorem high_risk_refusal_not_in_error:
  "(\<exists>s. fst (processQuery high_risk ''how many orders?'' None world0) = Inr s \<and>
        error s = None \<and> finalResponse s = None \<and>
        executionResult s = Some (failure ''High-risk queries are not allowed to execute'' 1)) \<and>
   map fst (visited (snd (processQuery high_risk ''how many orders?'' None world0))) =
     [load_schema, nl_to_sql, validate_sql, execute_sql, handle_error]"
  by (simp add: scenario_defs run_defs)

theorem high_risk_refusal_error_absent:
  "\<not> (\<exists>s. fst (processQuery high_risk ''how many orders?'' None world0) = Inr s \<and>
          truthy_str (error s))"
  using high_risk_refusal_not_in_error by (auto simp: truthy_str_def)

subsection \<open>Retries (C9)\<close>

lemma retry_invariant:
  assumes "retryCount state = Some 0" and "n \<noteq> END"
  shows "(\<forall>e \<in> set (entered w (snd (walk C n state w))). retryCount (snd e) = Some 0) \<and>
     (\<forall>s. fst (walk C n state w) = Inr s \<longrightarrow> retryCount s = Some 0 \<or> retryCount s = Some 1)"
proof -
  let ?I = "\<lambda>n s. (n \<noteq> END \<and> retryCount s = Some 0) \<or>
                   (n = END \<and> (retryCount s = Some 0 \<or> retryCount s = Some 1))"
  have step: "?I n' (merge state u)"
    if "?I n state" "n \<noteq> END" "run_node C n state w = (Inr u, w')"
      "next_node n (merge state u) = Some n'" for n state w u w' n'
  proof (cases "n = handle_error")
    case True
    with that show ?thesis
      by (auto simp: node_defs flow_defs merge_def next_node_def)
  next
    case False
    with that run_node_retryCount [of C n state w u w'] show ?thesis by auto
  qed
  have "(\<forall>e \<in> set (entered w (snd (walk C n state w))). ?I (fst e) (snd e)) \<and>
     (\<forall>s. fst (walk C n state w) = Inr s \<longrightarrow> ?I END s)"
    by (rule walk_inv [where I = ?I]) (use assms step in auto)
  then show ?thesis
    using entered_not_END [of _ w C n state] by auto
qed

text \<open>
  C9. In every run, whatever the collaborators and the streaming service do: no node is
  entered twice, so \<^verbatim>\<open>handle_error\<close> runs at most once; the edge out of
  \<^verbatim>\<open>handle_error\<close> leads to \<open>END\<close> and every edge leads to a node of higher rank, so
  none leads back; the state entering \<^verbatim>\<open>handle_error\<close> has \<open>retryCount = 0\<close>, so the node
  returns the error unchanged with \<open>retryCount = 1\<close> and not the message of the
  \<^verbatim>\<open>retryCount > 2\<close> branch; and the state \<^verbatim>\<open>processQuery\<close> returns has \<open>retryCount\<close> 0 or 1.
\<close>

theorem handle_error_at_most_once:
  assumes "visited w = []"
  shows "distinct (map fst (visited (snd (processQuery C question sid w)))) \<and>
     (\<forall>e \<in> set (visited (snd (processQuery C question sid w))).
        fst e = handle_error \<longrightarrow>
          retryCount (snd e) = Some 0 \<and>
          handleError (snd e) = io_return [SetError (error (snd e)), SetRetryCount 1]) \<and>
     (\<forall>s. fst (processQuery C question sid w) = Inr s \<longrightarrow>
        retryCount s = Some 0 \<or> retryCount s = Some 1) \<and>
     (\<forall>s. next_node handle_error s = Some END) \<and>
     (\<forall>n s n'. next_node n s = Some n' \<longrightarrow> rank n < rank n')"
proof -
  let ?st0 = "initialState question"
  have r0: "retryCount ?st0 = Some 0"
    by (simp add: initialState_def)
  have h: "handleError s = io_return [SetError (error s), SetRetryCount 1]"
    if "retryCount s = Some 0" for s
    using that by (simp add: handleError_def)
  have d: "distinct (map fst (visited (snd (processQuery C question sid w))))"
    using processQuery_outcome [of C question sid w] assms
      walk_distinct [of _ C load_schema ?st0]
    by (auto simp: invoke_initial)
  have c: "retryCount (failedState question m) = Some 0" for m
    by (simp add: failedState_def initialState_def)
  have "(\<forall>e \<in> set (visited (snd (processQuery C question sid w))). retryCount (snd e) = Some 0) \<and>
     (\<forall>s. fst (processQuery C question sid w) = Inr s \<longrightarrow>
        retryCount s = Some 0 \<or> retryCount s = Some 1)"
    using assms
  proof (cases rule: processQuery_entered [of w C question sid])
    case (thrown e)
    then show ?thesis by simp
  next
    case (walked w0)
    with retry_invariant [OF r0, of load_schema w0 C] c show ?thesis by auto
  qed
  then show ?thesis
    using d h next_node_rank by (auto simp: next_node_def)
qed

text \<open>The theorem in a run whose translator throws.\<close>

theorem failed_translation_handled_once:
  "visited world0 = [] \<and>
   map fst (visited (snd (processQuery unavailable_translator ''how many orders?'' None world0))) =
     [load_schema, nl_to_sql, handle_error] \<and>
   (\<exists>s. fst (processQuery unavailable_translator ''how many orders?'' None world0) = Inr s \<and>
        retryCount s = Some 1 \<and>
        error s = Some ''NL to SQL conversion failed: model unavailable'')"
  using handle_error_at_most_once [of world0 unavailable_translator "''how many orders?''" None]
  by (simp add: scenario_defs run_defs)

subsection \<open>Queries the validator did not approve (C10)\<close>

lemma execute_refuses:
  assumes "sqlExecutionAgent C = agent_of db now" and "disapproved state"
    and "executeSQL C state w = (Inr u, w')"
  shows "next_node execute_sql (merge state u) = Some handle_error"
  using assms
  by (auto simp: executeSQL_def flow_defs sink_defs merge_def agent_of_def disapproved_def
      SQLExecutionAgent_executeSQL_def failure_def Let_def next_node_def
      shouldInterpretOrError_def truthy_str_def
      split: option.splits sum.splits prod.splits if_splits)

lemma validation_constant:
  assumes "3 \<le> rank n"
  shows "(\<forall>e \<in> set (entered w (snd (walk C n state w))).
            validationResult (snd e) = validationResult state) \<and>
     (\<forall>s. fst (walk C n state w) = Inr s \<longrightarrow> validationResult s = validationResult state)"
proof -
  let ?I = "\<lambda>m s. 3 \<le> rank m \<and> validationResult s = validationResult state"
  have step: "?I n' (merge st u)"
    if "?I n st" "n \<noteq> END" "run_node C n st w = (Inr u, w')"
      "next_node n (merge st u) = Some n'" for n st w u w' n'
  proof -
    have "n \<noteq> validate_sql" using that(1) by auto
    with that run_node_validationResult [of C n st w u w'] next_node_rank [of n "merge st u" n']
    show ?thesis by auto
  qed
  have "(\<forall>e \<in> set (entered w (snd (walk C n state w))). ?I (fst e) (snd e)) \<and>
     (\<forall>s. fst (walk C n state w) = Inr s \<longrightarrow> ?I END s)"
    by (rule walk_inv [where I = ?I]) (use assms step in auto)
  then show ?thesis by auto
qed

lemma verdict_shared:
  "\<exists>vr. (\<forall>e \<in> set (entered w (snd (walk C n state w))).
            3 \<le> rank (fst e) \<longrightarrow> validationResult (snd e) = vr) \<and>
        (\<forall>s. fst (walk C n state w) = Inr s \<longrightarrow> validationResult s = vr)"
proof (induction C n state w rule: walk.induct)
  case (1 C n state w)
  show ?case
  proof (cases "3 \<le> rank n")
    case True
    from validation_constant [OF this, of w C state] show ?thesis by blast
  next
    case False
    then have ne: "n \<noteq> END" by auto
    obtain r w1 where run: "run_node C n state (w\<lparr>visited := visited w @ [(n, state)]\<rparr>) = (r, w1)"
      by (cases "run_node C n state (w\<lparr>visited := visited w @ [(n, state)]\<rparr>)")
    show ?thesis
    proof (cases "\<exists>u n'. r = Inr u \<and> next_node n (merge state u) = Some n'")
      case True
      then obtain u n' where u: "r = Inr u" "next_node n (merge state u) = Some n'" by blast
      from "1.IH" [OF ne run [symmetric] u]
      obtain vr where vr:
        "\<forall>e \<in> set (entered w1 (snd (walk C n' (merge state u) w1))).
            3 \<le> rank (fst e) \<longrightarrow> validationResult (snd e) = vr"
        "\<forall>s. fst (walk C n' (merge state u) w1) = Inr s \<longrightarrow> validationResult s = vr"
        by blast
      have run': "run_node C n state (w\<lparr>visited := visited w @ [(n, state)]\<rparr>) = (Inr u, w1)"
        using run u(1) by simp
      show ?thesis
        using walk_go [OF ne run' u(2)] vr False by auto
    next
      case stop: False
      then have "(\<exists>e. r = Inl e) \<or> (\<exists>u. r = Inr u \<and> next_node n (merge state u) = None)"
        by (cases r) auto
      from walk_stop [OF ne run this] False show ?thesis by auto
    qed
  qed
qed

lemma approval_invariant:
  assumes agent: "sqlExecutionAgent C = agent_of db now"
    and start: "finalResponse state = None" "validationResult state = None" "rank n \<le> 2"
  shows "(\<forall>e \<in> set (entered w (snd (walk C n state w))).
            (rank (fst e) \<le> 2 \<longrightarrow> validationResult (snd e) = None) \<and>
            (fst e = interpret_results \<longrightarrow> \<not> disapproved (snd e))) \<and>
     (\<forall>s. fst (walk C n state w) = Inr s \<longrightarrow> finalResponse s \<noteq> None \<longrightarrow> \<not> disapproved s)"
proof -
  let ?I = "\<lambda>m s. (m \<noteq> END \<longrightarrow> finalResponse s = None) \<and>
      (rank m \<le> 2 \<longrightarrow> validationResult s = None) \<and>
      (m = interpret_results \<longrightarrow> \<not> disapproved s) \<and>
      (m = END \<longrightarrow> finalResponse s \<noteq> None \<longrightarrow> \<not> disapproved s)"
  have step: "?I n' (merge st u)"
    if I: "?I n st" and ne: "n \<noteq> END" and run: "run_node C n st w = (Inr u, w')"
      and nx: "next_node n (merge st u) = Some n'" for n st w u w' n'
  proof -
    have fr: "n \<noteq> interpret_results \<Longrightarrow> finalResponse (merge st u) = finalResponse st"
      using run by (rule run_node_finalResponse)
    have vr: "n \<noteq> validate_sql \<Longrightarrow> validationResult (merge st u) = validationResult st"
      using run by (rule run_node_validationResult)
    have dis: "n \<noteq> validate_sql \<Longrightarrow> disapproved (merge st u) = disapproved st"
      using vr by (simp add: disapproved_def)
    have ex: "n = execute_sql \<Longrightarrow> disapproved st \<Longrightarrow> n' = handle_error"
      using execute_refuses [OF agent, of st w u w'] run nx by (simp add: run_node_def)
    from next_node_cases [OF nx] show ?thesis
      using I fr vr dis ex by auto
  qed
  have "(\<forall>e \<in> set (entered w (snd (walk C n state w))). ?I (fst e) (snd e)) \<and>
     (\<forall>s. fst (walk C n state w) = Inr s \<longrightarrow> ?I END s)"
  proof (rule walk_inv [where I = ?I])
    show "?I n state" using start by auto
  qed (rule step; assumption)
  then show ?thesis by auto
qed

text \<open>
  C10. With the repository's execution agent: in a run in which some node is entered with
  a validation result \<open>v\<close> that is invalid or of HIGH risk, every node from Experiment on
  is entered with that same \<open>v\<close> (nothing validates again), \<^verbatim>\<open>interpret_results\<close> is not
  entered, and the state returned has no \<open>finalResponse\<close>.
\<close>

theorem disapproved_query_never_interpreted:
  assumes "visited w = []" and "sqlExecutionAgent C = agent_of db now"
    and "e \<in> set (visited (snd (processQuery C question sid w)))"
    and "validationResult (snd e) = Some v" and "\<not> isValid v \<or> riskLevel v = HIGH"
  shows "interpret_results \<notin> fst ` set (visited (snd (processQuery C question sid w))) \<and>
     (\<forall>s. fst (processQuery C question sid w) = Inr s \<longrightarrow> finalResponse s = None) \<and>
     (\<forall>e' \<in> set (visited (snd (processQuery C question sid w))).
        3 \<le> rank (fst e') \<longrightarrow> validationResult (snd e') = Some v)"
  using assms(1)
proof (cases rule: processQuery_entered [of w C question sid])
  case (thrown x)
  with assms(3) show ?thesis by simp
next
  case (walked w0)
  let ?st0 = "initialState question"
  let ?tr = "entered w0 (snd (walk C load_schema ?st0 w0))"
  have inv: "\<forall>e \<in> set ?tr. (rank (fst e) \<le> 2 \<longrightarrow> validationResult (snd e) = None) \<and>
            (fst e = interpret_results \<longrightarrow> \<not> disapproved (snd e))"
    and fin: "\<forall>s. fst (walk C load_schema ?st0 w0) = Inr s \<longrightarrow> finalResponse s \<noteq> None \<longrightarrow>
            \<not> disapproved s"
    using approval_invariant [OF assms(2), of ?st0 load_schema w0]
    by (simp_all add: initial_fields)
  obtain vr where vr: "\<forall>e \<in> set ?tr. 3 \<le> rank (fst e) \<longrightarrow> validationResult (snd e) = vr"
    "\<forall>s. fst (walk C load_schema ?st0 w0) = Inr s \<longrightarrow> validationResult s = vr"
    using verdict_shared [of w0 C load_schema ?st0] by blast
  have e: "e \<in> set ?tr" using assms(3) walked(1) by simp
  then have "3 \<le> rank (fst e)"
    using inv assms(4) by fastforce
  then have vrv: "vr = Some v"
    using vr(1) e assms(4) by auto
  have bad: "disapproved s" if "validationResult s = Some v" for s
    using that assms(5) by (simp add: disapproved_def)
  have "interpret_results \<notin> fst ` set ?tr"
  proof
    assume "interpret_results \<in> fst ` set ?tr"
    then obtain e' where e': "e' \<in> set ?tr" "fst e' = interpret_results" by auto
    then have "validationResult (snd e') = Some v"
      using vr(1) vrv by simp
    with inv e' bad show False by auto
  qed
  moreover have "finalResponse s = None" if "fst (processQuery C question sid w) = Inr s" for s
  proof -
    from walked(2) [OF that] show ?thesis
    proof
      assume s: "fst (walk C load_schema ?st0 w0) = Inr s"
      then have "disapproved s" using vr(2) vrv bad by simp
      with fin s show ?thesis by auto
    next
      assume "\<exists>msg. s = failedState question msg"
      then show ?thesis by (auto simp: initial_fields)
    qed
  qed
  ultimately show ?thesis
    using vr(1) vrv walked(1) by auto
qed

text \<open>The theorem in the run of a rejected query that Experiment replaces by a better
  rated alternative: Execute is entered with the new query and the old verdict.\<close>

theorem rejected_query_replaced_but_refused:
  "visited world0 = [] \<and>
   map (\<lambda>e. (fst e, validationResult (snd e), sqlQuery (snd e)))
     (visited (snd (processQuery rejecting ''how many orders?'' None world0))) =
     [(load_schema, None, None), (nl_to_sql, None, None),
      (validate_sql, None, Some ''SELECT COUNT(*) FROM orders''),
      (experiment_alternatives, Some reject, Some ''SELECT COUNT(*) FROM orders''),
      (execute_sql, Some reject, Some ''SELECT COUNT(1) FROM orders''),
      (handle_error, Some reject, Some ''SELECT COUNT(1) FROM orders'')] \<and>
   \<not> isValid reject \<and>
   interpret_results \<notin> fst ` set (visited (snd (processQuery rejecting ''how many orders?'' None world0))) \<and>
   (\<exists>s. fst (processQuery rejecting ''how many orders?'' None world0) = Inr s \<and>
        finalResponse s = None)"
proof -
  let ?tr = "visited (snd (processQuery rejecting ''how many orders?'' None world0))"
  have len: "length ?tr = 6"
    using rejecting_run by (auto dest: arg_cong [where f = length])
  have e: "?tr ! 4 \<in> set ?tr"
    using len by simp
  have "map (\<lambda>e. (fst e, validationResult (snd e), sqlQuery (snd e))) ?tr ! 4 =
      (execute_sql, Some reject, Some ''SELECT COUNT(1) FROM orders'')"
    using rejecting_run by simp
  then have v: "validationResult (snd (?tr ! 4)) = Some reject"
    using len by simp
  have bad: "\<not> isValid reject \<or> riskLevel reject = HIGH"
    by (simp add: reject_def)
  have w: "visited world0 = []"
    by (simp add: world0_def)
  have agent: "sqlExecutionAgent rejecting = agent_of (\<lambda>sql. Inr [[(''count'', JNumber 5)]]) (\<lambda>k. int k)"
    by (simp add: rejecting_def scenario_def)
  from disapproved_query_never_interpreted [OF w agent e v bad]
  show ?thesis
    using rejecting_run rejecting_result w by (auto simp: reject_def)
qed

end
